theory Spec2Isabelle
  imports Complex_Main "HOL-Library.AList"
begin

section \<open>JavaScript values used by the model\<close>

text \<open>
  A JavaScript \<open>Map\<close> is modelled as an association list in insertion order:
  \<open>get\<close>/\<open>has\<close> are \<open>map_of\<close>, \<open>set\<close> is \<open>AList.update\<close> (an existing key keeps
  its position, a new key is appended), \<open>delete\<close> is \<open>AList.delete\<close> and \<open>size\<close>
  is \<open>length\<close>. Identifiers are strings; timestamps are milliseconds as integers
  and every \<open>new Date()\<close> is the clock value passed to the operation.
\<close>

type_synonym ('k, 'v) jsmap = "('k \<times> 'v) list"

abbreviation Map_get :: "('k, 'v) jsmap \<Rightarrow> 'k \<Rightarrow> 'v option" where
  "Map_get m k \<equiv> map_of m k"

abbreviation Map_has :: "('k, 'v) jsmap \<Rightarrow> 'k \<Rightarrow> bool" where
  "Map_has m k \<equiv> map_of m k \<noteq> None"

abbreviation Map_set :: "('k, 'v) jsmap \<Rightarrow> 'k \<Rightarrow> 'v \<Rightarrow> ('k, 'v) jsmap" where
  "Map_set m k v \<equiv> AList.update k v m"

abbreviation Map_delete :: "('k, 'v) jsmap \<Rightarrow> 'k \<Rightarrow> ('k, 'v) jsmap" where
  "Map_delete m k \<equiv> AList.delete k m"

abbreviation Map_size :: "('k, 'v) jsmap \<Rightarrow> nat" where
  "Map_size m \<equiv> length m"

text \<open>The values a password can take: \<open>undefined\<close>, \<open>null\<close> or a string.\<close>

datatype jsval = Undefined | Null | Str string

text \<open>
  A JavaScript number: a finite value (every double is a rational), \<open>NaN\<close> or an
  infinity. The sign of zero is not kept. \<open>js_ge a b\<close> is \<open>a >= b\<close>, false whenever
  \<open>NaN\<close> is involved; \<open>js_min a b\<close> is \<open>Math.min(a, b)\<close>, \<open>NaN\<close> whenever \<open>NaN\<close> is involved.
\<close>

datatype jsnum = Num rat | NaN | PosInf | NegInf

fun js_ge :: "jsnum \<Rightarrow> jsnum \<Rightarrow> bool" where
  "js_ge NaN b = False"
| "js_ge a NaN = False"
| "js_ge PosInf b = True"
| "js_ge a NegInf = True"
| "js_ge (Num x) (Num y) = (x \<ge> y)"
| "js_ge (Num x) PosInf = False"
| "js_ge NegInf b = False"

fun js_min :: "jsnum \<Rightarrow> jsnum \<Rightarrow> jsnum" where
  "js_min NaN b = NaN"
| "js_min a NaN = NaN"
| "js_min NegInf b = NegInf"
| "js_min a NegInf = NegInf"
| "js_min PosInf b = b"
| "js_min a PosInf = a"
| "js_min (Num x) (Num y) = Num (min x y)"

text \<open>
  The value found under \<open>settings.maxUsers\<close>. The code reads it twice, in \<open>if (v)\<close> and in
  \<open>Math.min(v, 50)\<close>: only its truth value and the number it converts to matter. A value
  that is not a number (a string, a boolean, \<open>null\<close>, an object) is given by these two.
\<close>

datatype capacity = Absent | Number jsnum | Coerced bool jsnum

fun truthy :: "capacity \<Rightarrow> bool" where
  "truthy Absent = False"
| "truthy (Number n) = (n \<noteq> Num 0 \<and> n \<noteq> NaN)"
| "truthy (Coerced t n) = t"

fun toNumber :: "capacity \<Rightarrow> jsnum" where
  "toNumber Absent = NaN"
| "toNumber (Number n) = n"
| "toNumber (Coerced t n) = n"


section \<open>models/Room.js\<close>

datatype role = Host | Participant

record user =
  userId :: string
  name :: string
  socketId :: string
  joinedAt :: int
  isAudioEnabled :: bool
  isVideoEnabled :: bool
  isScreenSharing :: bool
  role :: role
  handRaised :: "bool option"

record userInfo =
  info_name :: "string option"
  info_socketId :: string

record settings =
  allowScreenShare :: bool
  allowChat :: bool
  requirePassword :: bool
  password :: jsval
  recordingEnabled :: bool

record room =
  roomId :: string
  users :: "(string, user) jsmap"
  createdAt :: int
  createdBy :: "string option"
  isActive :: bool
  maxUsers :: jsnum
  settings :: settings

text \<open>
  The errors thrown: the five of the room logic, and the \<open>TypeError\<close> of reading a
  property of \<open>null\<close>.
\<close>

datatype error =
  RoomNotFound | RoomInactive | InvalidPassword | RoomFull | DuplicateParticipant | TypeError

text \<open>The constructor: capacity 10, active, no password.\<close>

definition Room :: "string \<Rightarrow> string option \<Rightarrow> int \<Rightarrow> room" where
  "Room rid cb now =
     \<lparr>roomId = rid, users = [], createdAt = now, createdBy = cb, isActive = True,
      maxUsers = Num 10,
      settings = \<lparr>allowScreenShare = True, allowChat = True, requirePassword = False,
                  password = Null, recordingEnabled = False\<rparr>\<rparr>"

text \<open>\<open>userInfo.name || `User ${userId.slice(0, 8)}`\<close>: an absent or empty name is falsy.\<close>

definition displayName :: "userInfo \<Rightarrow> string \<Rightarrow> string" where
  "displayName info uid =
     (case info_name info of
        None \<Rightarrow> ''User '' @ take 8 uid
      | Some n \<Rightarrow> if n = [] then ''User '' @ take 8 uid else n)"

text \<open>
  The object \<open>addUser\<close> builds. \<open>handRaised\<close> is the property the hand-raise handler
  attaches later; a new participant has none.
\<close>

definition newUser :: "string \<Rightarrow> userInfo \<Rightarrow> int \<Rightarrow> role \<Rightarrow> user" where
  "newUser uid info now rl =
     \<lparr>userId = uid, name = displayName info uid, socketId = info_socketId info,
      joinedAt = now, isAudioEnabled = True, isVideoEnabled = True, isScreenSharing = False,
      role = rl, handRaised = None\<rparr>"

text \<open>
  \<open>Room.addUser\<close>: \<open>this.users.size >= this.maxUsers\<close> compares the count with whatever
  number the capacity is. Both checks throw before anything is written, so an error
  leaves the room as it was; on success the changed room and the new user are returned.
\<close>

definition addUser :: "room \<Rightarrow> string \<Rightarrow> userInfo \<Rightarrow> int \<Rightarrow> error + (room \<times> user)" where
  "addUser r uid info now =
     (if js_ge (Num (of_nat (Map_size (users r)))) (maxUsers r) then Inl RoomFull
      else if Map_has (users r) uid then Inl DuplicateParticipant
      else
        let u = newUser uid info now (if Map_size (users r) = 0 then Host else Participant)
        in Inr (r\<lparr>users := Map_set (users r) uid u\<rparr>, u))"

text \<open>\<open>this.users.values().next().value.role = 'host'\<close>: the first entry in insertion order.\<close>

fun promoteFirst :: "(string, user) jsmap \<Rightarrow> (string, user) jsmap" where
  "promoteFirst [] = []"
| "promoteFirst ((k, u) # rest) = (k, u\<lparr>role := Host\<rparr>) # rest"

definition removeUser :: "room \<Rightarrow> string \<Rightarrow> room \<times> user option" where
  "removeUser r uid =
     (case Map_get (users r) uid of
        None \<Rightarrow> (r, None)
      | Some u \<Rightarrow>
          let us = Map_delete (users r) uid in
          if role u = Host \<and> Map_size us > 0
          then (r\<lparr>users := promoteFirst us\<rparr>, Some u)
          else (r\<lparr>users := us\<rparr>, Some u))"

definition updateUserMedia :: "room \<Rightarrow> string \<Rightarrow> string \<Rightarrow> bool \<Rightarrow> room \<times> user option" where
  "updateUserMedia r uid mediaType enabled =
     (case Map_get (users r) uid of
        None \<Rightarrow> (r, None)
      | Some u \<Rightarrow>
          let u' = (if mediaType = ''audio'' then u\<lparr>isAudioEnabled := enabled\<rparr>
                    else if mediaType = ''video'' then u\<lparr>isVideoEnabled := enabled\<rparr>
                    else if mediaType = ''screen'' then u\<lparr>isScreenSharing := enabled\<rparr>
                    else u)
          in (r\<lparr>users := Map_set (users r) uid u'\<rparr>, Some u'))"

definition isEmpty :: "room \<Rightarrow> bool" where
  "isEmpty r = (Map_size (users r) = 0)"

definition validatePassword :: "room \<Rightarrow> jsval \<Rightarrow> bool" where
  "validatePassword r pw =
     (if \<not> requirePassword (settings r) then True else password (settings r) = pw)"


section \<open>services/RoomManager.js\<close>

text \<open>
  Room objects are shared by reference: \<open>joinRoom\<close> keeps the object it looked up
  while \<open>leaveRoom\<close> changes it and may drop it from the directory. So the rooms live
  in a store, \<open>heap\<close>, addressed by references; \<open>new Room\<close> takes the next unused
  reference and objects are never freed. The directory \<open>rooms\<close> maps a room
  identifier to a reference, \<open>userRoomMap\<close> a participant to a room identifier.
\<close>

record manager =
  heap :: "nat \<Rightarrow> room"
  nextRef :: nat
  rooms :: "(string, nat) jsmap"
  userRoomMap :: "(string, string) jsmap"

definition RoomManager :: manager where
  "RoomManager = \<lparr>heap = (\<lambda>_. Room [] None 0), nextRef = 0, rooms = [], userRoomMap = []\<rparr>"

text \<open>
  The properties \<open>createRoom\<close> reads from a settings object: the capacity, the truth
  value of \<open>requirePassword\<close>, and the password.
\<close>

record roomRequest =
  req_maxUsers :: capacity
  req_requirePassword :: bool
  req_password :: jsval

text \<open>
  The \<open>settings\<close> argument: \<open>undefined\<close>, which the default \<open>{}\<close> replaces; \<open>null\<close>, which the
  default does not replace; or an object. (A primitive has none of the three properties
  and is the object without them.)
\<close>

datatype settingsArg = NoSettings | NullSettings | Settings roomRequest

definition emptyRequest :: roomRequest where
  "emptyRequest = \<lparr>req_maxUsers = Absent, req_requirePassword = False, req_password = Undefined\<rparr>"


text \<open>
  \<open>createRoom\<close>: \<open>rid\<close> is the identifier \<open>uuidv4()\<close> returned. With \<open>settings = null\<close> the
  read of \<open>settings.maxUsers\<close> throws before the room is stored. \<open>if (settings.maxUsers)\<close>
  skips a falsy capacity; otherwise the capacity is \<open>Math.min(settings.maxUsers, 50)\<close>,
  kept as the number it is. On success the new reference is returned.
\<close>

definition createRoom ::
  "manager \<Rightarrow> string \<Rightarrow> string option \<Rightarrow> settingsArg \<Rightarrow> int
     \<Rightarrow> (error + nat) \<times> manager" where
  "createRoom s rid cb arg now =
     (case arg of
        NullSettings \<Rightarrow> (Inl TypeError, s)
      | _ \<Rightarrow>
          let st = (case arg of Settings q \<Rightarrow> q | _ \<Rightarrow> emptyRequest);
              r0 = Room rid cb now;
              r1 = (if truthy (req_maxUsers st)
                    then r0\<lparr>maxUsers := js_min (toNumber (req_maxUsers st)) (Num 50)\<rparr>
                    else r0);
              r2 = (if req_requirePassword st
                    then r1\<lparr>settings := (settings r1)\<lparr>requirePassword := True,
                                                      password := req_password st\<rparr>\<rparr>
                    else r1);
              ref = nextRef s
          in (Inr ref, s\<lparr>heap := (heap s)(ref := r2), nextRef := Suc ref,
                         rooms := Map_set (rooms s) rid ref\<rparr>))"

definition getRoom :: "manager \<Rightarrow> string \<Rightarrow> nat option" where
  "getRoom s rid = Map_get (rooms s) rid"

text \<open>\<open>leaveRoom\<close>: \<open>if (!roomId)\<close> also holds for the empty string.\<close>

definition leaveRoom :: "manager \<Rightarrow> string \<Rightarrow> (nat \<times> user option) option \<times> manager" where
  "leaveRoom s uid =
     (case Map_get (userRoomMap s) uid of
        None \<Rightarrow> (None, s)
      | Some rid \<Rightarrow>
          if rid = [] then (None, s)
          else
            (case getRoom s rid of
               None \<Rightarrow> (None, s)
             | Some ref \<Rightarrow>
                 let (r', u) = removeUser (heap s ref) uid;
                     s1 = s\<lparr>heap := (heap s)(ref := r'),
                            userRoomMap := Map_delete (userRoomMap s) uid\<rparr>;
                     s2 = (if isEmpty (heap s1 ref)
                           then s1\<lparr>rooms := Map_delete (rooms s1) rid\<rparr> else s1)
                 in (Some (ref, u), s2)))"

text \<open>
  \<open>joinRoom\<close>: the default of the password parameter turns \<open>undefined\<close> into \<open>null\<close>.
  The three checks come first, then the previous membership is left, then the user is
  added to the object looked up at the start, whatever became of the directory.
\<close>

definition joinRoom ::
  "manager \<Rightarrow> string \<Rightarrow> string \<Rightarrow> userInfo \<Rightarrow> jsval \<Rightarrow> int
     \<Rightarrow> (error + (nat \<times> user)) \<times> manager" where
  "joinRoom s rid uid info pw now =
     (case getRoom s rid of
        None \<Rightarrow> (Inl RoomNotFound, s)
      | Some ref \<Rightarrow>
          if \<not> isActive (heap s ref) then (Inl RoomInactive, s)
          else if \<not> validatePassword (heap s ref) (if pw = Undefined then Null else pw)
          then (Inl InvalidPassword, s)
          else
            let s1 = snd (leaveRoom s uid) in
            (case addUser (heap s1 ref) uid info now of
               Inl e \<Rightarrow> (Inl e, s1)
             | Inr (r', u) \<Rightarrow>
                 (Inr (ref, u),
                  s1\<lparr>heap := (heap s1)(ref := r'),
                     userRoomMap := Map_set (userRoomMap s1) uid rid\<rparr>)))"

definition getUserRoom :: "manager \<Rightarrow> string \<Rightarrow> nat option" where
  "getUserRoom s uid =
     (case Map_get (userRoomMap s) uid of
        None \<Rightarrow> None
      | Some rid \<Rightarrow> if rid = [] then None else getRoom s rid)"

definition manager_updateUserMedia ::
  "manager \<Rightarrow> string \<Rightarrow> string \<Rightarrow> bool \<Rightarrow> user option \<times> manager" where
  "manager_updateUserMedia s uid mediaType enabled =
     (case getUserRoom s uid of
        None \<Rightarrow> (None, s)
      | Some ref \<Rightarrow>
          let (r', u) = updateUserMedia (heap s ref) uid mediaType enabled
          in (u, s\<lparr>heap := (heap s)(ref := r')\<rparr>))"

text \<open>The sweep collects the identifiers of the empty rooms, then deletes each.\<close>

definition cleanupEmptyRooms :: "manager \<Rightarrow> manager" where
  "cleanupEmptyRooms s =
     (let emptyRooms = map fst (filter (\<lambda>(rid, ref). isEmpty (heap s ref)) (rooms s))
      in s\<lparr>rooms := fold (\<lambda>rid m. Map_delete m rid) emptyRooms (rooms s)\<rparr>)"

text \<open>
  The socket handlers write two things on a room directly: the recording flag in its
  settings, and the \<open>handRaised\<close> property of a participant.
\<close>

definition setRecording :: "manager \<Rightarrow> string \<Rightarrow> bool \<Rightarrow> manager" where
  "setRecording s rid b =
     (case getRoom s rid of
        None \<Rightarrow> s
      | Some ref \<Rightarrow>
          s\<lparr>heap := (heap s)(ref := (heap s ref)
                 \<lparr>settings := (settings (heap s ref))\<lparr>recordingEnabled := b\<rparr>\<rparr>)\<rparr>)"

definition setHandRaised :: "manager \<Rightarrow> string \<Rightarrow> string \<Rightarrow> bool \<Rightarrow> manager" where
  "setHandRaised s rid uid raised =
     (case getRoom s rid of
        None \<Rightarrow> s
      | Some ref \<Rightarrow>
          (case Map_get (users (heap s ref)) uid of
             None \<Rightarrow> s
           | Some u \<Rightarrow>
               s\<lparr>heap := (heap s)(ref := (heap s ref)
                      \<lparr>users := Map_set (users (heap s ref)) uid
                                  (u\<lparr>handRaised := Some raised\<rparr>)\<rparr>)\<rparr>))"

text \<open>
  The states the manager can be in: from the empty manager by its operations and by the
  handlers' direct writes.
  Of \<open>uuidv4()\<close> only this is assumed: the identifier it returns is not the empty string.
\<close>

inductive reachable :: "manager \<Rightarrow> bool" where
  r_init: "reachable RoomManager"
| r_create: "reachable s \<Longrightarrow> rid \<noteq> [] \<Longrightarrow> reachable (snd (createRoom s rid cb arg now))"
| r_join: "reachable s \<Longrightarrow> reachable (snd (joinRoom s rid uid info pw now))"
| r_leave: "reachable s \<Longrightarrow> reachable (snd (leaveRoom s uid))"
| r_media: "reachable s \<Longrightarrow> reachable (snd (manager_updateUserMedia s uid mt en))"
| r_cleanup: "reachable s \<Longrightarrow> reachable (cleanupEmptyRooms s)"
| r_recording: "reachable s \<Longrightarrow> reachable (setRecording s rid b)"
| r_hand: "reachable s \<Longrightarrow> reachable (setHandRaised s rid uid b)"


section \<open>services/WebRTCManager.js\<close>

datatype status = Connecting | Connected

record peerLink =
  connectionId :: string
  peerId :: string
  status :: status
  link_createdAt :: int

text \<open>
  \<open>mediaState\<close> is a plain object written under any key (\<open>user.mediaState[mediaType]\<close>),
  so it is a map from property names. The offer payload is opaque: a type parameter.
\<close>

record peerEntry =
  pe_socketId :: string
  peers :: "(string, peerLink) jsmap"
  isInitiator :: bool
  mediaState :: "(string, bool) jsmap"

record 'o pendingOffer =
  po_roomId :: string
  fromUserId :: string
  toUserId :: string
  offer :: 'o
  timestamp :: int

record 'o webrtc =
  connections :: "(string, (string, peerEntry) jsmap) jsmap"
  pendingOffers :: "(string, 'o pendingOffer) jsmap"

definition WebRTCManager :: "'o webrtc" where
  "WebRTCManager = \<lparr>connections = [], pendingOffers = []\<rparr>"

definition iceServers :: "string list" where
  "iceServers = [''stun:stun.l.google.com:19302'', ''stun:stun1.l.google.com:19302'',
                 ''stun:stun2.l.google.com:19302'']"

definition initializeRoom :: "'o webrtc \<Rightarrow> string \<Rightarrow> 'o webrtc" where
  "initializeRoom s rid =
     (if \<not> Map_has (connections s) rid
      then s\<lparr>connections := Map_set (connections s) rid []\<rparr> else s)"

text \<open>After \<open>initializeRoom\<close> the room's map is there; the lookup cannot miss.\<close>

definition rtc_addUser :: "'o webrtc \<Rightarrow> string \<Rightarrow> string \<Rightarrow> string \<Rightarrow> peerEntry \<times> 'o webrtc" where
  "rtc_addUser s rid uid sock =
     (let s1 = initializeRoom s rid;
          rc = (case Map_get (connections s1) rid of None \<Rightarrow> [] | Some m \<Rightarrow> m);
          rc' = (if \<not> Map_has rc uid
                 then Map_set rc uid
                        \<lparr>pe_socketId = sock, peers = [], isInitiator = False,
                         mediaState = [(''audio'', True), (''video'', True), (''screen'', False)]\<rparr>
                 else rc);
          e = (case Map_get rc' uid of
                 None \<Rightarrow> \<lparr>pe_socketId = sock, peers = [], isInitiator = False, mediaState = []\<rparr>
               | Some x \<Rightarrow> x)
      in (e, s1\<lparr>connections := Map_set (connections s1) rid rc'\<rparr>))"

definition rtc_removeUser :: "'o webrtc \<Rightarrow> string \<Rightarrow> string \<Rightarrow> bool \<times> 'o webrtc" where
  "rtc_removeUser s rid uid =
     (case Map_get (connections s) rid of
        None \<Rightarrow> (False, s)
      | Some rc \<Rightarrow>
          if Map_has rc uid
          then
            let rc' = Map_delete rc uid in
            if Map_size rc' = 0
            then (True, s\<lparr>connections := Map_delete (connections s) rid\<rparr>)
            else (True, s\<lparr>connections := Map_set (connections s) rid rc'\<rparr>)
          else (False, s))"

text \<open>\<open>`${fromUserId}-${toUserId}`\<close>\<close>

definition connId :: "string \<Rightarrow> string \<Rightarrow> string" where
  "connId a b = a @ ''-'' @ b"

definition createPeerConnection ::
  "'o webrtc \<Rightarrow> string \<Rightarrow> string \<Rightarrow> string \<Rightarrow> int \<Rightarrow> string option \<times> 'o webrtc" where
  "createPeerConnection s rid fromId toId now =
     (case Map_get (connections s) rid of
        None \<Rightarrow> (None, s)
      | Some rc \<Rightarrow>
          (case (Map_get rc fromId, Map_get rc toId) of
             (Some fromUser, Some toUser) \<Rightarrow>
               let cid = connId fromId toId;
                   fromUser' = fromUser\<lparr>peers := Map_set (peers fromUser) toId
                       \<lparr>connectionId = cid, peerId = toId, status = Connecting,
                        link_createdAt = now\<rparr>\<rparr>
               in (Some cid,
                   s\<lparr>connections := Map_set (connections s) rid (Map_set rc fromId fromUser')\<rparr>)
           | _ \<Rightarrow> (None, s)))"

text \<open>\<open>if (connectionId)\<close>: \<open>null\<close> and the empty string are falsy.\<close>

definition handleOffer ::
  "'o webrtc \<Rightarrow> string \<Rightarrow> string \<Rightarrow> string \<Rightarrow> 'o \<Rightarrow> int \<Rightarrow> string option \<times> 'o webrtc" where
  "handleOffer s rid fromId toId off now =
     (case createPeerConnection s rid fromId toId now of
        (None, s1) \<Rightarrow> (None, s1)
      | (Some cid, s1) \<Rightarrow>
          if cid \<noteq> []
          then (Some cid,
                s1\<lparr>pendingOffers := Map_set (pendingOffers s1) cid
                     \<lparr>po_roomId = rid, fromUserId = fromId, toUserId = toId, offer = off,
                      timestamp = now\<rparr>\<rparr>)
          else (None, s1))"

text \<open>
  \<open>handleAnswer\<close>: \<open>fromId\<close> is the answering participant, \<open>toId\<close> the one answered.
  The link is looked up in the answering participant's own \<open>peers\<close>.
\<close>

definition handleAnswer ::
  "'o webrtc \<Rightarrow> string \<Rightarrow> string \<Rightarrow> string \<Rightarrow> 'a \<Rightarrow> bool \<times> 'o webrtc" where
  "handleAnswer s rid fromId toId answer =
     (case Map_get (connections s) rid of
        None \<Rightarrow> (False, s)
      | Some rc \<Rightarrow>
          (case Map_get rc fromId of
             None \<Rightarrow> (False, s)
           | Some fromUser \<Rightarrow>
               (case Map_get (peers fromUser) toId of
                  None \<Rightarrow> (False, s)
                | Some lk \<Rightarrow>
                    let fromUser' = fromUser\<lparr>peers := Map_set (peers fromUser) toId
                                                        (lk\<lparr>status := Connected\<rparr>)\<rparr>
                    in (True, s\<lparr>connections :=
                          Map_set (connections s) rid (Map_set rc fromId fromUser')\<rparr>))))"

definition updateMediaState ::
  "'o webrtc \<Rightarrow> string \<Rightarrow> string \<Rightarrow> string \<Rightarrow> bool
     \<Rightarrow> (string, bool) jsmap option \<times> 'o webrtc" where
  "updateMediaState s rid uid mediaType enabled =
     (case Map_get (connections s) rid of
        None \<Rightarrow> (None, s)
      | Some rc \<Rightarrow>
          (case Map_get rc uid of
             None \<Rightarrow> (None, s)
           | Some u \<Rightarrow>
               let ms = Map_set (mediaState u) mediaType enabled
               in (Some ms,
                   s\<lparr>connections :=
                       Map_set (connections s) rid (Map_set rc uid (u\<lparr>mediaState := ms\<rparr>))\<rparr>)))"

text \<open>
  \<open>cleanupPendingOffers\<close>: \<open>now\<close> is read once; the keys of the offers older than
  30000 ms are collected, then each is deleted. The number collected is returned.
\<close>

definition expired :: "int \<Rightarrow> 'o pendingOffer \<Rightarrow> bool" where
  "expired now od = (now - timestamp od > 30000)"

definition cleanupPendingOffers :: "'o webrtc \<Rightarrow> int \<Rightarrow> nat \<times> 'o webrtc" where
  "cleanupPendingOffers s now =
     (let expiredOffers = map fst (filter (\<lambda>(cid, od). expired now od) (pendingOffers s))
      in (length expiredOffers,
          s\<lparr>pendingOffers := fold (\<lambda>cid m. Map_delete m cid) expiredOffers (pendingOffers s)\<rparr>))"

record roomStats =
  userCount :: nat
  connectionCount :: nat

record stats =
  totalRooms :: nat
  totalUsers :: nat
  totalConnections :: nat
  stats_pendingOffers :: nat
  stats_rooms :: "(string, roomStats) jsmap"

definition roomConnectionCount :: "(string, peerEntry) jsmap \<Rightarrow> nat" where
  "roomConnectionCount rc = fold (\<lambda>(uid, e) n. n + Map_size (peers e)) rc 0"

text \<open>The body of the loop over \<open>this.connections.entries()\<close>.\<close>

definition addRoomStats :: "string \<times> (string, peerEntry) jsmap \<Rightarrow> stats \<Rightarrow> stats" where
  "addRoomStats e st =
     (case e of (rid, rc) \<Rightarrow>
        st\<lparr>totalUsers := totalUsers st + Map_size rc,
           totalConnections := totalConnections st + roomConnectionCount rc,
           stats_rooms := Map_set (stats_rooms st) rid
             \<lparr>userCount = Map_size rc, connectionCount = roomConnectionCount rc\<rparr>\<rparr>)"

definition getStats :: "'o webrtc \<Rightarrow> stats" where
  "getStats s =
     fold addRoomStats (connections s)
          \<lparr>totalRooms = Map_size (connections s), totalUsers = 0, totalConnections = 0,
           stats_pendingOffers = Map_size (pendingOffers s), stats_rooms = []\<rparr>"

text \<open>The states of the tracker: from the empty tracker by its operations.\<close>

inductive rtc_reachable :: "'o webrtc \<Rightarrow> bool" where
  t_init: "rtc_reachable WebRTCManager"
| t_add: "rtc_reachable s \<Longrightarrow> rtc_reachable (snd (rtc_addUser s rid uid sock))"
| t_remove: "rtc_reachable s \<Longrightarrow> rtc_reachable (snd (rtc_removeUser s rid uid))"
| t_offer: "rtc_reachable s \<Longrightarrow> rtc_reachable (snd (handleOffer s rid a b off now))"
| t_answer: "rtc_reachable s \<Longrightarrow> rtc_reachable (snd (handleAnswer s rid a b (ans :: 'o)))"
| t_media: "rtc_reachable s \<Longrightarrow> rtc_reachable (snd (updateMediaState s rid uid mt en))"
| t_cleanup: "rtc_reachable s \<Longrightarrow> rtc_reachable (snd (cleanupPendingOffers s now))"


section \<open>Observations and invariants\<close>

text \<open>The entries of a room that hold the host role, in insertion order.\<close>

definition hosts :: "room \<Rightarrow> (string \<times> user) list" where
  "hosts r = filter (\<lambda>(k, u). role u = Host) (users r)"

text \<open>
  What every room object satisfies: the keys of its participant map are distinct, it is
  active, and while it has participants exactly one of them is host and the capacity
  is one that lets a participant into the empty room.
\<close>

definition room_ok :: "room \<Rightarrow> bool" where
  "room_ok r \<longleftrightarrow>
     distinct (map fst (users r)) \<and> isActive r \<and>
     (users r \<noteq> [] \<longrightarrow> length (hosts r) = 1 \<and> \<not> js_ge (Num 0) (maxUsers r))"

text \<open>
  What every state of the manager satisfies: a directory entry points to an allocated
  object carrying its own non-empty identifier; a participant of a directory room is
  indexed under that room; every allocated object is a sound room.
\<close>

definition inv :: "manager \<Rightarrow> bool" where
  "inv s \<longleftrightarrow>
     (\<forall>rid ref. Map_get (rooms s) rid = Some ref \<longrightarrow>
        rid \<noteq> [] \<and> ref < nextRef s \<and> roomId (heap s ref) = rid) \<and>
     (\<forall>rid ref uid. Map_get (rooms s) rid = Some ref \<longrightarrow> Map_has (users (heap s ref)) uid \<longrightarrow>
        Map_get (userRoomMap s) uid = Some rid) \<and>
     (\<forall>ref. ref < nextRef s \<longrightarrow> room_ok (heap s ref))"

text \<open>The link a participant holds towards a peer, if any.\<close>

definition peerLinkOf :: "'o webrtc \<Rightarrow> string \<Rightarrow> string \<Rightarrow> string \<Rightarrow> peerLink option" where
  "peerLinkOf s rid a b =
     (case Map_get (connections s) rid of
        None \<Rightarrow> None
      | Some rc \<Rightarrow> (case Map_get rc a of None \<Rightarrow> None | Some e \<Rightarrow> Map_get (peers e) b))"


section \<open>Example runs\<close>

text \<open>
  A room of capacity 2 that \<open>A\<close> and then \<open>B\<close> join; a second room that \<open>C\<close> joins;
  \<open>A\<close> leaving the first room.
\<close>

definition info_of :: "string \<Rightarrow> userInfo" where
  "info_of n = \<lparr>info_name = Some n, info_socketId = ''sock-'' @ n\<rparr>"

definition participant :: "string \<Rightarrow> int \<Rightarrow> role \<Rightarrow> user" where
  "participant n t r =
     \<lparr>userId = n, name = n, socketId = ''sock-'' @ n, joinedAt = t, isAudioEnabled = True,
      isVideoEnabled = True, isScreenSharing = False, role = r, handRaised = None\<rparr>"

definition capacity2 :: settingsArg where
  "capacity2 = Settings \<lparr>req_maxUsers = Number (Num 2), req_requirePassword = False,
                          req_password = Undefined\<rparr>"

definition run0 :: manager where
  "run0 = snd (createRoom RoomManager ''r1'' None capacity2 0)"

definition runA :: manager where
  "runA = snd (joinRoom run0 ''r1'' ''A'' (info_of ''A'') Undefined 1)"

definition runAB :: manager where
  "runAB = snd (joinRoom runA ''r1'' ''B'' (info_of ''B'') Undefined 2)"

definition runB :: manager where
  "runB = snd (leaveRoom runAB ''A'')"

definition runAB2 :: manager where
  "runAB2 = snd (createRoom runAB ''r2'' (Some ''C'') capacity2 3)"

definition runABC :: manager where
  "runABC = snd (joinRoom runAB2 ''r2'' ''C'' (info_of ''C'') Undefined 4)"

text \<open>
  A room created with capacity 2.5 that \<open>A\<close>, \<open>B\<close> and \<open>C\<close> join; a room of capacity 1
  with the password \<open>secret\<close> that \<open>A\<close> joins.
\<close>

definition capacity2_5 :: settingsArg where
  "capacity2_5 = Settings \<lparr>req_maxUsers = Number (Num (5 / 2)), req_requirePassword = False,
                            req_password = Undefined\<rparr>"

definition frac0 :: manager where
  "frac0 = snd (createRoom RoomManager ''r1'' None capacity2_5 0)"

definition fracAB :: manager where
  "fracAB = snd (joinRoom (snd (joinRoom frac0 ''r1'' ''A'' (info_of ''A'') Undefined 1))
                   ''r1'' ''B'' (info_of ''B'') Undefined 2)"

definition fracABC :: manager where
  "fracABC = snd (joinRoom fracAB ''r1'' ''C'' (info_of ''C'') Undefined 3)"

definition withPassword :: settingsArg where
  "withPassword = Settings \<lparr>req_maxUsers = Number (Num 1), req_requirePassword = True,
                             req_password = Str ''secret''\<rparr>"

definition locked0 :: manager where
  "locked0 = snd (createRoom RoomManager ''r1'' None withPassword 0)"

definition lockedA :: manager where
  "lockedA = snd (joinRoom locked0 ''r1'' ''A'' (info_of ''A'') (Str ''secret'') 1)"

text \<open>A tracker with \<open>A\<close> and \<open>B\<close> in one room; \<open>A\<close> offering to \<open>B\<close>; \<open>B\<close> offering to \<open>A\<close>.\<close>

definition trackAB :: "string webrtc" where
  "trackAB = snd (rtc_addUser (snd (rtc_addUser WebRTCManager ''r1'' ''A'' ''sock-A''))
                    ''r1'' ''B'' ''sock-B'')"

definition trackOfferAB :: "string webrtc" where
  "trackOfferAB = snd (handleOffer trackAB ''r1'' ''A'' ''B'' ''offer-sdp'' 1000)"

definition trackOfferBA :: "string webrtc" where
  "trackOfferBA = snd (handleOffer trackAB ''r1'' ''B'' ''A'' ''offer-sdp'' 1000)"

text \<open>Both offers staged, 20 seconds apart.\<close>

definition trackTwoOffers :: "string webrtc" where
  "trackTwoOffers = snd (handleOffer trackOfferAB ''r1'' ''B'' ''A'' ''offer-sdp'' 21000)"


section \<open>Proofs\<close>

subsection \<open>Deleting keys from a map; the statistics fold\<close>

lemma fold_delete_filter:
  "fold (\<lambda>k m. AList.delete k m) ks m = filter (\<lambda>(k, v). k \<notin> set ks) m"
proof (induction ks arbitrary: m)
  case Nil
  then show ?case by simp
next
  case (Cons k ks)
  have "fold (\<lambda>k m. AList.delete k m) (k # ks) m
        = filter (\<lambda>(k', v). k' \<notin> set ks) (AList.delete k m)"
    by (simp add: Cons.IH)
  also have "\<dots> = filter (\<lambda>(k', v). k' \<notin> set ks) (filter (\<lambda>(k', _). k \<noteq> k') m)"
    by (simp only: AList.delete_eq)
  also have "\<dots> = filter (\<lambda>(k', v). k' \<notin> set (k # ks)) m"
    by (auto intro: filter_cong)
  finally show ?case .
qed

lemma distinct_key_filter:
  assumes "distinct (map fst m)" and "(k, v) \<in> set m"
  shows "k \<in> fst ` set (filter P m) \<longleftrightarrow> P (k, v)"
proof
  assume "k \<in> fst ` set (filter P m)"
  then obtain v' where "(k, v') \<in> set m" and p: "P (k, v')" by auto
  with assms have "v' = v" by (meson eq_key_imp_eq_value)
  with p show "P (k, v)" by simp
next
  assume "P (k, v)"
  with assms(2) show "k \<in> fst ` set (filter P m)" by force
qed

lemma delete_keys_of_filter:
  assumes "distinct (map fst m)"
  shows "fold (\<lambda>k m. AList.delete k m) (map fst (filter P m)) m = filter (\<lambda>e. \<not> P e) m"
  unfolding fold_delete_filter
proof (rule filter_cong[OF refl])
  fix e assume "e \<in> set m"
  then have "(fst e, snd e) \<in> set m" by simp
  from distinct_key_filter[OF assms this, of P]
  show "(case e of (k, v) \<Rightarrow> k \<notin> set (map fst (filter P m))) = (\<not> P e)"
    by (simp add: case_prod_unfold)
qed

lemma addRoomStats_pending:
  "addRoomStats e (st\<lparr>stats_pendingOffers := n\<rparr>) = (addRoomStats e st)\<lparr>stats_pendingOffers := n\<rparr>"
  by (cases e) (simp add: addRoomStats_def)

lemma fold_addRoomStats_pending:
  "fold addRoomStats cs (st\<lparr>stats_pendingOffers := n\<rparr>)
     = (fold addRoomStats cs st)\<lparr>stats_pendingOffers := n\<rparr>"
  by (induction cs arbitrary: st) (simp_all add: addRoomStats_pending)

lemma getStats_pendingOffers_update:
  "getStats (s\<lparr>pendingOffers := p\<rparr>) = (getStats s)\<lparr>stats_pendingOffers := length p\<rparr>"
  by (simp add: getStats_def fold_addRoomStats_pending [symmetric])

subsection \<open>Room: membership, fields and the host\<close>

lemma promoteFirst_keys: "map fst (promoteFirst us) = map fst us"
  by (cases us rule: promoteFirst.cases) simp_all

lemma promoteFirst_length: "length (promoteFirst us) = length us"
  by (cases us rule: promoteFirst.cases) simp_all

lemma promoteFirst_Nil: "promoteFirst us = [] \<longleftrightarrow> us = []"
  by (cases us rule: promoteFirst.cases) simp_all

lemma map_of_keys: "map fst xs = map fst ys \<Longrightarrow> (map_of xs k \<noteq> None) = (map_of ys k \<noteq> None)"
  by (metis map_of_eq_None_iff set_map)

lemma delete_keys: "map fst (AList.delete k m) = filter (\<lambda>k'. k' \<noteq> k) (map fst m)"
  by (induction m) auto

lemma removeUser_keys:
  "map fst (users (fst (removeUser r uid))) = filter (\<lambda>k. k \<noteq> uid) (map fst (users r))"
proof (cases "Map_get (users r) uid")
  case None
  then have "uid \<notin> set (map fst (users r))" by (simp add: map_of_eq_None_iff)
  then have "filter (\<lambda>k. k \<noteq> uid) (map fst (users r)) = map fst (users r)"
    by (induction "users r") (auto simp: filter_id_conv)
  with None show ?thesis by (simp add: removeUser_def)
next
  case (Some u)
  then show ?thesis
    by (simp add: removeUser_def Let_def promoteFirst_keys delete_keys)
qed

lemma removeUser_not_member: "\<not> Map_has (users (fst (removeUser r uid))) uid"
proof -
  have "uid \<notin> set (map fst (users (fst (removeUser r uid))))"
    unfolding removeUser_keys by simp
  then show ?thesis by (simp add: map_of_eq_None_iff)
qed

lemma removeUser_member:
  "Map_has (users (fst (removeUser r uid))) k \<Longrightarrow> Map_has (users r) k"
proof -
  assume "Map_has (users (fst (removeUser r uid))) k"
  then have "k \<in> set (map fst (users (fst (removeUser r uid))))"
    by (metis map_of_eq_None_iff set_map)
  then have "k \<in> set (map fst (users r))" unfolding removeUser_keys by simp
  then show ?thesis by (metis map_of_eq_None_iff set_map)
qed

lemma removeUser_fields:
  "roomId (fst (removeUser r uid)) = roomId r"
  "maxUsers (fst (removeUser r uid)) = maxUsers r"
  "isActive (fst (removeUser r uid)) = isActive r"
  "settings (fst (removeUser r uid)) = settings r"
  by (simp_all add: removeUser_def Let_def split: option.splits)

lemma filter_delete_count:
  assumes "distinct (map fst m)" and "map_of m k = Some v"
  shows "length (filter P m) = length (filter P (AList.delete k m)) + (if P (k, v) then 1 else 0)"
  using assms
proof (induction m)
  case Nil
  then show ?case by simp
next
  case (Cons e m)
  obtain k' v' where e: "e = (k', v')" by (cases e)
  show ?case
  proof (cases "k' = k")
    case True
    with Cons.prems e have "v' = v" by simp
    from Cons.prems e True have "k \<notin> fst ` set m" by simp
    then have "AList.delete k m = m" by (simp add: AList.delete_idem delete_id)
    with True e \<open>v' = v\<close> show ?thesis by simp
  next
    case False
    with Cons e show ?thesis by simp
  qed
qed

lemma promoteFirst_hosts:
  assumes "filter (\<lambda>(k, u). role u = Host) us = []" and "us \<noteq> []"
  shows "length (filter (\<lambda>(k, u). role u = Host) (promoteFirst us)) = 1"
  using assms by (cases us rule: promoteFirst.cases) (auto split: if_splits)

lemma removeUser_room_ok:
  assumes "room_ok r"
  shows "room_ok (fst (removeUser r uid))"
proof (cases "Map_get (users r) uid")
  case None
  with assms show ?thesis by (simp add: removeUser_def)
next
  case (Some u)
  let ?us = "Map_delete (users r) uid"
  from Some have ne: "users r \<noteq> []" by auto
  from assms have d: "distinct (map fst (users r))" and act: "isActive r"
    and h: "length (hosts r) = 1" and c: "\<not> js_ge (Num 0) (maxUsers r)"
    using ne by (simp_all add: room_ok_def)
  have cnt: "length (hosts r) = length (filter (\<lambda>(k, u). role u = Host) ?us)
                + (if role u = Host then 1 else 0)"
    unfolding hosts_def using filter_delete_count[OF d Some, of "\<lambda>(k, u). role u = Host"] by simp
  have len: "length ?us \<le> length (users r)" by (simp add: AList.delete_eq)
  have dd: "distinct (map fst ?us)" using d by (rule distinct_delete)
  show ?thesis
  proof (cases "role u = Host \<and> length ?us > 0")
    case True
    then have r': "fst (removeUser r uid) = r\<lparr>users := promoteFirst ?us\<rparr>"
      using Some by (simp add: removeUser_def Let_def)
    from True cnt h have "filter (\<lambda>(k, u). role u = Host) ?us = []" by simp
    moreover from True have "?us \<noteq> []" by auto
    ultimately have "length (filter (\<lambda>(k, u). role u = Host) (promoteFirst ?us)) = 1"
      by (rule promoteFirst_hosts)
    with dd act c show ?thesis
      unfolding r' room_ok_def hosts_def
      by (simp add: promoteFirst_keys)
  next
    case False
    then have r': "fst (removeUser r uid) = r\<lparr>users := ?us\<rparr>"
      using Some by (simp add: removeUser_def Let_def)
    from False cnt h have "?us \<noteq> [] \<Longrightarrow> length (filter (\<lambda>(k, u). role u = Host) ?us) = 1"
      by (auto split: if_splits)
    with dd act c show ?thesis
      unfolding r' room_ok_def hosts_def by simp
  qed
qed

lemma update_new_key:
  "k \<notin> fst ` set m \<Longrightarrow> AList.update k v m = m @ [(k, v)]"
  by (induction m) auto

lemma addUser_Inr:
  assumes "addUser r uid info now = Inr (r', u)"
  shows "users r' = users r @ [(uid, u)]" and "\<not> Map_has (users r) uid"
    and "\<not> js_ge (Num (of_nat (length (users r)))) (maxUsers r)"
    and "roomId r' = roomId r" and "maxUsers r' = maxUsers r" and "isActive r' = isActive r"
    and "settings r' = settings r"
    and "role u = (if users r = [] then Host else Participant)"
    and "userId u = uid"
proof -
  from assms have a: "\<not> js_ge (Num (of_nat (length (users r)))) (maxUsers r)"
    and b: "\<not> Map_has (users r) uid"
    by (auto simp: addUser_def newUser_def Let_def split: if_splits)
  from b have "uid \<notin> fst ` set (users r)" by (simp add: map_of_eq_None_iff)
  then have "AList.update uid u (users r) = users r @ [(uid, u)]" for u
    by (rule update_new_key)
  with assms a b show "users r' = users r @ [(uid, u)]"
    by (auto simp: addUser_def newUser_def Let_def split: if_splits)
  from assms a b show  "\<not> Map_has (users r) uid"
    and "\<not> js_ge (Num (of_nat (length (users r)))) (maxUsers r)"
    and "roomId r' = roomId r" and "maxUsers r' = maxUsers r" and "isActive r' = isActive r"
    and "settings r' = settings r"
    and "role u = (if users r = [] then Host else Participant)"
    and "userId u = uid"
    by (auto simp: addUser_def newUser_def Let_def split: if_splits)
qed

lemma addUser_room_ok:
  assumes "room_ok r" and "addUser r uid info now = Inr (r', u)"
  shows "room_ok r'"
proof -
  note f = addUser_Inr[OF assms(2)]
  from f(2) have nk: "uid \<notin> fst ` set (users r)" by (simp add: map_of_eq_None_iff)
  show ?thesis
  proof (cases "users r = []")
    case True
    with assms(1) f nk show ?thesis by (simp add: room_ok_def hosts_def)
  next
    case False
    with assms(1) f nk show ?thesis by (simp add: room_ok_def hosts_def)
  qed
qed

subsection \<open>leaveRoom\<close>

lemma leaveRoom_noop:
  assumes "\<And>rid ref. Map_get (userRoomMap s) uid = Some rid \<Longrightarrow> rid \<noteq> [] \<Longrightarrow> getRoom s rid = Some ref \<Longrightarrow> False"
  shows "leaveRoom s uid = (None, s)"
  using assms by (auto simp: leaveRoom_def split: option.splits)

lemma leaveRoom_act:
  assumes "Map_get (userRoomMap s) uid = Some rid" and "rid \<noteq> []" and "getRoom s rid = Some ref"
  shows "snd (leaveRoom s uid) =
           s\<lparr>heap := (heap s)(ref := fst (removeUser (heap s ref) uid)),
             userRoomMap := Map_delete (userRoomMap s) uid,
             rooms := (if isEmpty (fst (removeUser (heap s ref) uid))
                       then Map_delete (rooms s) rid else rooms s)\<rparr>"
  using assms by (simp add: leaveRoom_def Let_def case_prod_unfold)

lemma leaveRoom_cases:
  obtains (noop) "leaveRoom s uid = (None, s)"
      and "\<And>rid ref. Map_get (userRoomMap s) uid = Some rid \<Longrightarrow> rid \<noteq> [] \<Longrightarrow> getRoom s rid = Some ref \<Longrightarrow> False"
  | (act) rid ref where "Map_get (userRoomMap s) uid = Some rid" and "rid \<noteq> []"
      and "getRoom s rid = Some ref"
      and "snd (leaveRoom s uid) =
           s\<lparr>heap := (heap s)(ref := fst (removeUser (heap s ref) uid)),
             userRoomMap := Map_delete (userRoomMap s) uid,
             rooms := (if isEmpty (fst (removeUser (heap s ref) uid))
                       then Map_delete (rooms s) rid else rooms s)\<rparr>"
proof (cases "\<exists>rid ref. Map_get (userRoomMap s) uid = Some rid \<and> rid \<noteq> [] \<and> getRoom s rid = Some ref")
  case True
  then obtain rid ref where h: "Map_get (userRoomMap s) uid = Some rid" "rid \<noteq> []" "getRoom s rid = Some ref"
    by blast
  show ?thesis by (rule act[OF h leaveRoom_act[OF h]])
next
  case False
  show ?thesis
  proof (rule noop)
    show "leaveRoom s uid = (None, s)" by (rule leaveRoom_noop) (use False in blast)
  next
    fix rid ref
    assume "Map_get (userRoomMap s) uid = Some rid" "rid \<noteq> []" "getRoom s rid = Some ref"
    with False show False by blast
  qed
qed

lemma leaveRoom_frame:
  "nextRef (snd (leaveRoom s uid)) = nextRef s"
  "roomId (heap (snd (leaveRoom s uid)) ref) = roomId (heap s ref)"
  "maxUsers (heap (snd (leaveRoom s uid)) ref) = maxUsers (heap s ref)"
  "isActive (heap (snd (leaveRoom s uid)) ref) = isActive (heap s ref)"
  "settings (heap (snd (leaveRoom s uid)) ref) = settings (heap s ref)"
  by (cases rule: leaveRoom_cases[of s uid]; simp add: removeUser_fields)+

lemma leaveRoom_rooms:
  "Map_get (rooms (snd (leaveRoom s uid))) rid = Some ref \<Longrightarrow> Map_get (rooms s) rid = Some ref"
  by (cases rule: leaveRoom_cases[of s uid]) (auto simp: delete_conv' split: if_splits)

lemma leaveRoom_inv:
  assumes "inv s"
  shows "inv (snd (leaveRoom s uid))"
proof (cases rule: leaveRoom_cases[of s uid])
  case noop
  with assms show ?thesis by simp
next
  case (act rid0 ref0)
  let ?s = "snd (leaveRoom s uid)"
  have rooms': "Map_get (rooms s) rid = Some ref" if "Map_get (rooms ?s) rid = Some ref" for rid ref
    using that by (rule leaveRoom_rooms)
  have heap': "heap ?s = (heap s)(ref0 := fst (removeUser (heap s ref0) uid))"
    and urm': "userRoomMap ?s = Map_delete (userRoomMap s) uid"
    unfolding act(4) by simp_all
  have p1: "rid \<noteq> [] \<and> ref < nextRef ?s \<and> roomId (heap ?s ref) = rid"
    if "Map_get (rooms ?s) rid = Some ref" for rid ref
    using assms rooms'[OF that] by (simp add: inv_def leaveRoom_frame)
  have p2: "Map_get (userRoomMap ?s) k = Some rid"
    if a: "Map_get (rooms ?s) rid = Some ref" and b: "Map_has (users (heap ?s ref)) k" for rid ref k
  proof -
    from rooms'[OF a] have r: "Map_get (rooms s) rid = Some ref" .
    have mem: "Map_has (users (heap s ref)) k" and ne: "k \<noteq> uid"
    proof -
      show "Map_has (users (heap s ref)) k"
        using b removeUser_member[of "heap s ref0" uid k] by (cases "ref = ref0") (simp_all add: heap')
      show "k \<noteq> uid"
      proof
        assume "k = uid"
        show False
        proof (cases "ref = ref0")
          case True
          with b \<open>k = uid\<close> removeUser_not_member[of "heap s ref0" uid] show False
            by (simp add: heap')
        next
          case False
          with b \<open>k = uid\<close> have "Map_has (users (heap s ref)) uid" by (simp add: heap')
          with assms r have "Map_get (userRoomMap s) uid = Some rid" unfolding inv_def by blast
          with act(1) have "rid = rid0" by simp
          with r act(3) have "ref = ref0" by (simp add: getRoom_def)
          with False show False by simp
        qed
      qed
    qed
    from assms r mem have "Map_get (userRoomMap s) k = Some rid" unfolding inv_def by blast
    with ne show ?thesis by (simp add: urm' delete_conv')
  qed
  have p3: "room_ok (heap ?s ref)" if "ref < nextRef ?s" for ref
  proof -
    from that assms have "room_ok (heap s ref)" by (simp add: inv_def leaveRoom_frame)
    then show ?thesis
      using removeUser_room_ok[of "heap s ref0" uid] by (cases "ref = ref0") (simp_all add: heap')
  qed
  show ?thesis unfolding inv_def using p1 p2 p3 by blast
qed

lemma leaveRoom_gone:
  assumes "inv s" and "Map_get (rooms (snd (leaveRoom s uid))) rid = Some ref"
  shows "\<not> Map_has (users (heap (snd (leaveRoom s uid)) ref)) uid"
proof (cases rule: leaveRoom_cases[of s uid])
  case noop
  show ?thesis
  proof
    assume m: "Map_has (users (heap (snd (leaveRoom s uid)) ref)) uid"
    from assms(2) noop(1) have r: "Map_get (rooms s) rid = Some ref" by simp
    with m noop(1) assms(1) have "Map_get (userRoomMap s) uid = Some rid" and "rid \<noteq> []"
      unfolding inv_def by auto
    with noop(2)[of rid ref] r show False by (simp add: getRoom_def)
  qed
next
  case (act rid0 ref0)
  let ?s = "snd (leaveRoom s uid)"
  have heap': "heap ?s = (heap s)(ref0 := fst (removeUser (heap s ref0) uid))"
    unfolding act(4) by simp
  from assms(2) have r: "Map_get (rooms s) rid = Some ref" by (rule leaveRoom_rooms)
  show ?thesis
  proof (cases "ref = ref0")
    case True
    with removeUser_not_member[of "heap s ref0" uid] show ?thesis by (simp add: heap')
  next
    case False
    show ?thesis
    proof
      assume "Map_has (users (heap ?s ref)) uid"
      with False have "Map_has (users (heap s ref)) uid" by (simp add: heap')
      with assms(1) r have "Map_get (userRoomMap s) uid = Some rid" unfolding inv_def by blast
      with act(1) have "rid = rid0" by simp
      with r act(3) have "ref = ref0" by (simp add: getRoom_def)
      with False show False by simp
    qed
  qed
qed

subsection \<open>joinRoom and createRoom\<close>

lemma joinRoom_cases:
  obtains (fail0) e where "joinRoom s rid uid info pw now = (Inl e, s)"
      and "e = RoomNotFound \<or> e = RoomInactive \<or> e = InvalidPassword"
  | (fail1) e ref where "getRoom s rid = Some ref"
      and "isActive (heap s ref)"
      and "validatePassword (heap s ref) (if pw = Undefined then Null else pw)"
      and "addUser (heap (snd (leaveRoom s uid)) ref) uid info now = Inl e"
      and "joinRoom s rid uid info pw now = (Inl e, snd (leaveRoom s uid))"
  | (ok) ref r' u where "getRoom s rid = Some ref"
      and "isActive (heap s ref)"
      and "validatePassword (heap s ref) (if pw = Undefined then Null else pw)"
      and "addUser (heap (snd (leaveRoom s uid)) ref) uid info now = Inr (r', u)"
      and "joinRoom s rid uid info pw now =
             (Inr (ref, u),
              (snd (leaveRoom s uid))
                \<lparr>heap := (heap (snd (leaveRoom s uid)))(ref := r'),
                 userRoomMap := Map_set (userRoomMap (snd (leaveRoom s uid))) uid rid\<rparr>)"
proof (cases "getRoom s rid")
  case None
  then have "joinRoom s rid uid info pw now = (Inl RoomNotFound, s)"
    by (simp add: joinRoom_def)
  then show ?thesis by (rule fail0) simp
next
  case (Some ref)
  show ?thesis
  proof (cases "isActive (heap s ref) \<and> validatePassword (heap s ref) (if pw = Undefined then Null else pw)")
    case False
    with Some have "\<exists>e. joinRoom s rid uid info pw now = (Inl e, s)
        \<and> (e = RoomNotFound \<or> e = RoomInactive \<or> e = InvalidPassword)"
      by (auto simp: joinRoom_def)
    then show ?thesis using fail0 by blast
  next
    case True
    show ?thesis
    proof (cases "addUser (heap (snd (leaveRoom s uid)) ref) uid info now")
      case (Inl e)
      with Some True have "joinRoom s rid uid info pw now = (Inl e, snd (leaveRoom s uid))"
        by (simp add: joinRoom_def Let_def)
      with Some True Inl show ?thesis using fail1 by blast
    next
      case (Inr p)
      obtain r' u where p: "p = (r', u)" by (cases p)
      with Some True Inr have "joinRoom s rid uid info pw now =
             (Inr (ref, u),
              (snd (leaveRoom s uid))
                \<lparr>heap := (heap (snd (leaveRoom s uid)))(ref := r'),
                 userRoomMap := Map_set (userRoomMap (snd (leaveRoom s uid))) uid rid\<rparr>)"
        by (simp add: joinRoom_def Let_def)
      with Some True Inr p show ?thesis using ok by blast
    qed
  qed
qed

lemma joinRoom_inv:
  assumes "inv s"
  shows "inv (snd (joinRoom s rid uid info pw now))"
proof (cases rule: joinRoom_cases[of s rid uid info pw now])
  case (fail0 e)
  with assms show ?thesis by simp
next
  case (fail1 e ref)
  with leaveRoom_inv[OF assms, of uid] show ?thesis by simp
next
  case (ok ref r' u)
  let ?s1 = "snd (leaveRoom s uid)"
  let ?s2 = "snd (joinRoom s rid uid info pw now)"
  have i1: "inv ?s1" using assms by (rule leaveRoom_inv)
  note f = addUser_Inr[OF ok(4)]
  have s2: "heap ?s2 = (heap ?s1)(ref := r')" "nextRef ?s2 = nextRef s" "rooms ?s2 = rooms ?s1"
    "userRoomMap ?s2 = Map_set (userRoomMap ?s1) uid rid"
    unfolding ok(5) by (simp_all add: leaveRoom_frame)
  from assms ok(1) have ref: "ref < nextRef s" "roomId (heap s ref) = rid" "rid \<noteq> []"
    by (auto simp: inv_def getRoom_def)
  have p1: "rid' \<noteq> [] \<and> ref' < nextRef ?s2 \<and> roomId (heap ?s2 ref') = rid'"
    if "Map_get (rooms ?s2) rid' = Some ref'" for rid' ref'
  proof -
    from that i1 have "rid' \<noteq> [] \<and> ref' < nextRef ?s1 \<and> roomId (heap ?s1 ref') = rid'"
      unfolding inv_def s2 by blast
    then show ?thesis by (cases "ref' = ref") (simp_all add: s2 f leaveRoom_frame)
  qed
  have p2: "Map_get (userRoomMap ?s2) k = Some rid'"
    if a: "Map_get (rooms ?s2) rid' = Some ref'" and b: "Map_has (users (heap ?s2 ref')) k" for rid' ref' k
  proof -
    from a have r1: "Map_get (rooms ?s1) rid' = Some ref'" by (simp add: s2)
    show ?thesis
    proof (cases "k = uid")
      case True
      have "ref' = ref"
      proof (rule ccontr)
        assume "ref' \<noteq> ref"
        with b True have "Map_has (users (heap ?s1 ref')) uid" by (simp add: s2)
        with leaveRoom_gone[OF assms r1] show False by simp
      qed
      with r1 i1 have "roomId (heap ?s1 ref) = rid'" unfolding inv_def by blast
      with ref have "rid' = rid" by (simp add: leaveRoom_frame)
      with True show ?thesis by (simp add: s2 update_conv')
    next
      case False
      have "Map_has (users (heap ?s1 ref')) k"
        using b False by (cases "ref' = ref") (simp_all add: s2 f split: if_splits)
      with i1 r1 have "Map_get (userRoomMap ?s1) k = Some rid'" unfolding inv_def by blast
      with False show ?thesis by (simp add: s2 update_conv')
    qed
  qed
  have p3: "room_ok (heap ?s2 ref')" if "ref' < nextRef ?s2" for ref'
  proof -
    from that i1 have "room_ok (heap ?s1 ref')" by (simp add: inv_def s2 leaveRoom_frame)
    moreover from ref i1 have "room_ok (heap ?s1 ref)" by (simp add: inv_def leaveRoom_frame)
    then have "room_ok r'" using ok(4) by (rule addUser_room_ok)
    ultimately show ?thesis by (cases "ref' = ref") (simp_all add: s2)
  qed
  show ?thesis unfolding inv_def using p1 p2 p3 by blast
qed

lemma Room_ok: "room_ok (Room rid cb now)"
  by (simp add: room_ok_def Room_def)

lemma createRoom_null: "createRoom s rid cb NullSettings now = (Inl TypeError, s)"
  by (simp add: createRoom_def)

lemma createRoom_state:
  assumes "arg \<noteq> NullSettings"
  shows "heap (snd (createRoom s rid cb arg now))
           = (heap s)(nextRef s := heap (snd (createRoom s rid cb arg now)) (nextRef s))"
    and "nextRef (snd (createRoom s rid cb arg now)) = Suc (nextRef s)"
    and "rooms (snd (createRoom s rid cb arg now)) = Map_set (rooms s) rid (nextRef s)"
    and "userRoomMap (snd (createRoom s rid cb arg now)) = userRoomMap s"
    and "fst (createRoom s rid cb arg now) = Inr (nextRef s)"
  using assms by (cases arg; simp add: createRoom_def Let_def)+

lemma createRoom_new:
  assumes "arg \<noteq> NullSettings"
  shows "users (heap (snd (createRoom s rid cb arg now)) (nextRef s)) = []"
    and "roomId (heap (snd (createRoom s rid cb arg now)) (nextRef s)) = rid"
    and "isActive (heap (snd (createRoom s rid cb arg now)) (nextRef s))"
    and "maxUsers (heap (snd (createRoom s rid cb arg now)) (nextRef s)) =
          (case arg of
             Settings q \<Rightarrow> if truthy (req_maxUsers q)
                           then js_min (toNumber (req_maxUsers q)) (Num 50) else Num 10
           | _ \<Rightarrow> Num 10)"
  using assms by (cases arg; simp add: createRoom_def Let_def Room_def emptyRequest_def)+

lemma createRoom_inv:
  assumes "inv s" and "rid \<noteq> []"
  shows "inv (snd (createRoom s rid cb arg now))"
proof (cases "arg = NullSettings")
  case True
  with assms(1) show ?thesis by (simp add: createRoom_null)
next
  case False
  let ?s = "snd (createRoom s rid cb arg now)"
  note c = createRoom_state[OF False, of s rid cb now]
  note n = createRoom_new[OF False, of s rid cb now]
  have h: "heap ?s ref = heap s ref" if "ref \<noteq> nextRef s" for ref
    using that by (subst c(1)) simp
  have p1: "rid' \<noteq> [] \<and> ref' < nextRef ?s \<and> roomId (heap ?s ref') = rid'"
    if "Map_get (rooms ?s) rid' = Some ref'" for rid' ref'
  proof (cases "rid' = rid")
    case True
    with that have "ref' = nextRef s" by (simp add: c update_conv')
    with True assms(2) show ?thesis by (simp add: c(2) n)
  next
    case False
    with that have "Map_get (rooms s) rid' = Some ref'" by (simp add: c update_conv')
    with assms(1) have "rid' \<noteq> [] \<and> ref' < nextRef s \<and> roomId (heap s ref') = rid'"
      unfolding inv_def by blast
    then show ?thesis by (simp add: c(2) h)
  qed
  have p2: "Map_get (userRoomMap ?s) k = Some rid'"
    if a: "Map_get (rooms ?s) rid' = Some ref'" and b: "Map_has (users (heap ?s ref')) k" for rid' ref' k
  proof (cases "ref' = nextRef s")
    case True
    with b n show ?thesis by simp
  next
    case False
    with a have "rid' \<noteq> rid" by (auto simp: c update_conv' split: if_splits)
    with a have "Map_get (rooms s) rid' = Some ref'" by (simp add: c update_conv')
    moreover from b False have "Map_has (users (heap s ref')) k" by (simp add: h)
    ultimately show ?thesis using assms(1) unfolding inv_def c(4) by blast
  qed
  have p3: "room_ok (heap ?s ref')" if "ref' < nextRef ?s" for ref'
  proof (cases "ref' = nextRef s")
    case True
    then show ?thesis using n by (simp add: room_ok_def)
  next
    case False
    with that have "ref' < nextRef s" by (simp add: c(2))
    with assms(1) False show ?thesis by (simp add: inv_def h)
  qed
  show ?thesis unfolding inv_def using p1 p2 p3 by blast
qed

subsection \<open>The remaining writes; every reachable state satisfies the invariant\<close>

lemma update_same_role:
  assumes "map_of m k = Some u" and "role u' = role u"
  shows "map (\<lambda>(k, u). role u) (AList.update k u' m) = map (\<lambda>(k, u). role u) m"
  using assms by (induction m) (auto split: if_splits)

lemma hosts_via_roles:
  "length (hosts r) = length (filter (\<lambda>x. x = Host) (map (\<lambda>(k, u). role u) (users r)))"
  by (simp add: hosts_def filter_map comp_def case_prod_unfold)

lemma updateUserMedia_room:
  "map fst (users (fst (updateUserMedia r uid mt en))) = map fst (users r)"
  "map (\<lambda>(k, u). role u) (users (fst (updateUserMedia r uid mt en))) = map (\<lambda>(k, u). role u) (users r)"
  "roomId (fst (updateUserMedia r uid mt en)) = roomId r"
  "maxUsers (fst (updateUserMedia r uid mt en)) = maxUsers r"
  "isActive (fst (updateUserMedia r uid mt en)) = isActive r"
proof -
  show "map fst (users (fst (updateUserMedia r uid mt en))) = map fst (users r)"
    by (auto simp: updateUserMedia_def Let_def update_keys map_of_eq_None_iff
        split: option.splits)
  show "map (\<lambda>(k, u). role u) (users (fst (updateUserMedia r uid mt en))) = map (\<lambda>(k, u). role u) (users r)"
    by (auto simp: updateUserMedia_def Let_def update_same_role split: option.splits)
qed (simp_all add: updateUserMedia_def Let_def split: option.splits)

lemma updateUserMedia_room_ok:
  assumes "room_ok r"
  shows "room_ok (fst (updateUserMedia r uid mt en))"
proof -
  note f = updateUserMedia_room[of r uid mt en]
  have "length (users (fst (updateUserMedia r uid mt en))) = length (users r)"
    using f(1) by (metis length_map)
  moreover have "length (hosts (fst (updateUserMedia r uid mt en))) = length (hosts r)"
    by (simp add: hosts_via_roles f(2))
  ultimately show ?thesis using assms f unfolding room_ok_def by auto
qed

lemma updateUserMedia_member:
  "Map_has (users (fst (updateUserMedia r uid mt en))) k = Map_has (users r) k"
  by (rule map_of_keys) (rule updateUserMedia_room)

lemma inv_heap_update:
  assumes "inv s"
    and "\<And>k. Map_has (users r') k = Map_has (users (heap s ref)) k"
    and "roomId r' = roomId (heap s ref)"
    and "room_ok (heap s ref) \<Longrightarrow> room_ok r'"
  shows "inv (s\<lparr>heap := (heap s)(ref := r')\<rparr>)"
  using assms unfolding inv_def by (auto split: if_splits)

lemma manager_updateUserMedia_inv:
  assumes "inv s"
  shows "inv (snd (manager_updateUserMedia s uid mt en))"
proof (cases "getUserRoom s uid")
  case None
  with assms show ?thesis by (simp add: manager_updateUserMedia_def)
next
  case (Some ref)
  then have "snd (manager_updateUserMedia s uid mt en)
     = s\<lparr>heap := (heap s)(ref := fst (updateUserMedia (heap s ref) uid mt en))\<rparr>"
    by (simp add: manager_updateUserMedia_def case_prod_unfold Let_def)
  moreover have "inv (s\<lparr>heap := (heap s)(ref := fst (updateUserMedia (heap s ref) uid mt en))\<rparr>)"
    using assms
    by (rule inv_heap_update)
       (rule updateUserMedia_member, rule updateUserMedia_room, rule updateUserMedia_room_ok)
  ultimately show ?thesis by simp
qed

lemma setRecording_inv:
  assumes "inv s"
  shows "inv (setRecording s rid b)"
proof (cases "getRoom s rid")
  case None
  with assms show ?thesis by (simp add: setRecording_def)
next
  case (Some ref)
  have "inv (s\<lparr>heap := (heap s)(ref := (heap s ref)
                 \<lparr>settings := (settings (heap s ref))\<lparr>recordingEnabled := b\<rparr>\<rparr>)\<rparr>)"
    using assms by (rule inv_heap_update) (simp_all add: room_ok_def hosts_def)
  with Some show ?thesis by (simp add: setRecording_def)
qed

lemma setHandRaised_inv:
  assumes "inv s"
  shows "inv (setHandRaised s rid uid b)"
proof (cases "getRoom s rid")
  case None
  with assms show ?thesis by (simp add: setHandRaised_def)
next
  case (Some ref)
  show ?thesis
  proof (cases "Map_get (users (heap s ref)) uid")
    case None
    with Some assms show ?thesis by (simp add: setHandRaised_def)
  next
    case u: (Some u)
    let ?us = "Map_set (users (heap s ref)) uid (u\<lparr>handRaised := Some b\<rparr>)"
    from u have "uid \<in> fst ` set (users (heap s ref))"
      by (metis map_of_eq_None_iff option.distinct(1))
    then have keys: "map fst ?us = map fst (users (heap s ref))"
      by (simp add: update_keys)
    have roles: "map (\<lambda>(k, u). role u) ?us = map (\<lambda>(k, u). role u) (users (heap s ref))"
      using u by (simp add: update_same_role)
    have len: "length ?us = length (users (heap s ref))"
      using keys by (metis length_map)
    have "inv (s\<lparr>heap := (heap s)(ref := (heap s ref)\<lparr>users := ?us\<rparr>)\<rparr>)"
      using assms
    proof (rule inv_heap_update)
      show "Map_has (users ((heap s ref)\<lparr>users := ?us\<rparr>)) k = Map_has (users (heap s ref)) k" for k
        using map_of_keys[OF keys] by simp
      show "roomId ((heap s ref)\<lparr>users := ?us\<rparr>) = roomId (heap s ref)" by simp
      assume "room_ok (heap s ref)"
      then show "room_ok ((heap s ref)\<lparr>users := ?us\<rparr>)"
        unfolding room_ok_def hosts_via_roles using keys roles len by auto
    qed
    with Some u show ?thesis by (simp add: setHandRaised_def)
  qed
qed

lemma fold_delete_lookup:
  "Map_get (fold (\<lambda>k m. Map_delete m k) ks m) k = Some v \<Longrightarrow> Map_get m k = Some v"
proof (induction ks arbitrary: m)
  case Nil
  then show ?case by simp
next
  case (Cons a ks)
  from Cons.prems have "Map_get (Map_delete m a) k = Some v"
    by (simp add: Cons.IH)
  then show ?case by (simp add: delete_conv' split: if_splits)
qed

lemma inv_rooms_shrink:
  assumes "inv s"
    and "\<And>rid ref. Map_get rs rid = Some ref \<Longrightarrow> Map_get (rooms s) rid = Some ref"
  shows "inv (s\<lparr>rooms := rs\<rparr>)"
proof -
  have p1: "rid \<noteq> [] \<and> ref < nextRef s \<and> roomId (heap s ref) = rid"
    if "Map_get rs rid = Some ref" for rid ref
    using assms(1) assms(2)[OF that] unfolding inv_def by blast
  have p2: "Map_get (userRoomMap s) k = Some rid"
    if "Map_get rs rid = Some ref" and "Map_has (users (heap s ref)) k" for rid ref k
    using assms(1) assms(2)[OF that(1)] that(2) unfolding inv_def by blast
  have p3: "room_ok (heap s ref)" if "ref < nextRef s" for ref
    using assms(1) that unfolding inv_def by blast
  show ?thesis unfolding inv_def using p1 p2 p3 by simp
qed

lemma cleanupEmptyRooms_inv:
  assumes "inv s"
  shows "inv (cleanupEmptyRooms s)"
  unfolding cleanupEmptyRooms_def Let_def
  using assms by (rule inv_rooms_shrink) (rule fold_delete_lookup)

lemma init_inv: "inv RoomManager"
  by (simp add: inv_def RoomManager_def)

lemma reachable_inv: "reachable s \<Longrightarrow> inv s"
proof (induction rule: reachable.induct)
  case r_init
  show ?case by (rule init_inv)
next
  case (r_create s rid cb st now)
  then show ?case by (simp add: createRoom_inv)
next
  case (r_join s rid uid info pw now)
  then show ?case by (simp add: joinRoom_inv)
next
  case (r_leave s uid)
  then show ?case by (simp add: leaveRoom_inv)
next
  case (r_media s uid mt en)
  then show ?case by (simp add: manager_updateUserMedia_inv)
next
  case (r_cleanup s)
  then show ?case by (simp add: cleanupEmptyRooms_inv)
next
  case (r_recording s rid b)
  then show ?case by (simp add: setRecording_inv)
next
  case (r_hand s rid uid b)
  then show ?case by (simp add: setHandRaised_inv)
qed

lemma member_keys: "Map_has m k \<longleftrightarrow> k \<in> set (map fst m)"
  by (metis map_of_eq_None_iff set_map)

lemma leaveRoom_other_room:
  assumes "\<not> Map_has (users (heap s ref)) uid"
  shows "heap (snd (leaveRoom s uid)) ref = heap s ref"
proof (cases rule: leaveRoom_cases[of s uid])
  case noop
  then show ?thesis by simp
next
  case (act rid0 ref0)
  show ?thesis
  proof (cases "ref0 = ref")
    case True
    with assms have "removeUser (heap s ref0) uid = (heap s ref0, None)"
      by (simp add: removeUser_def)
    with True show ?thesis by (simp add: act(4))
  next
    case False
    then show ?thesis by (simp add: act(4))
  qed
qed

subsection \<open>The example runs, evaluated\<close>

lemma run0_eq:
  "run0 = \<lparr>heap = (\<lambda>_. Room [] None 0)(0 := (Room ''r1'' None 0)\<lparr>maxUsers := Num 2\<rparr>),
           nextRef = 1, rooms = [(''r1'', 0)], userRoomMap = []\<rparr>"
  by (simp add: run0_def createRoom_def capacity2_def RoomManager_def Let_def)

lemma runA_eq:
  "runA = \<lparr>heap = (\<lambda>_. Room [] None 0)
                    (0 := (Room ''r1'' None 0)
                       \<lparr>maxUsers := Num 2, users := [(''A'', participant ''A'' 1 Host)]\<rparr>),
           nextRef = 1, rooms = [(''r1'', 0)], userRoomMap = [(''A'', ''r1'')]\<rparr>"
  by (simp add: runA_def run0_eq joinRoom_def leaveRoom_def getRoom_def addUser_def
      validatePassword_def Room_def displayName_def info_of_def Let_def participant_def newUser_def)

lemma runAB_eq:
  "runAB = \<lparr>heap = (\<lambda>_. Room [] None 0)
                     (0 := (Room ''r1'' None 0)
                        \<lparr>maxUsers := Num 2,
                         users := [(''A'', participant ''A'' 1 Host),
                                   (''B'', participant ''B'' 2 Participant)]\<rparr>),
            nextRef = 1, rooms = [(''r1'', 0)],
            userRoomMap = [(''A'', ''r1''), (''B'', ''r1'')]\<rparr>"
  by (simp add: runAB_def runA_eq joinRoom_def leaveRoom_def getRoom_def addUser_def
      validatePassword_def Room_def displayName_def info_of_def Let_def participant_def newUser_def)

lemma runB_eq:
  "runB = \<lparr>heap = (\<lambda>_. Room [] None 0)
                    (0 := (Room ''r1'' None 0)
                       \<lparr>maxUsers := Num 2, users := [(''B'', participant ''B'' 2 Host)]\<rparr>),
           nextRef = 1, rooms = [(''r1'', 0)], userRoomMap = [(''B'', ''r1'')]\<rparr>"
  by (simp add: runB_def runAB_eq leaveRoom_def getRoom_def removeUser_def isEmpty_def
      Room_def Let_def participant_def)

lemma runABC_eq:
  "runABC = \<lparr>heap = (\<lambda>_. Room [] None 0)
                     (0 := (Room ''r1'' None 0)
                        \<lparr>maxUsers := Num 2,
                         users := [(''A'', participant ''A'' 1 Host),
                                   (''B'', participant ''B'' 2 Participant)]\<rparr>,
                      1 := (Room ''r2'' (Some ''C'') 3)
                        \<lparr>maxUsers := Num 2, users := [(''C'', participant ''C'' 4 Host)]\<rparr>),
            nextRef = 2, rooms = [(''r1'', 0), (''r2'', 1)],
            userRoomMap = [(''A'', ''r1''), (''B'', ''r1''), (''C'', ''r2'')]\<rparr>"
  by (simp add: runABC_def runAB2_def runAB_eq createRoom_def capacity2_def joinRoom_def
      leaveRoom_def getRoom_def addUser_def validatePassword_def Room_def displayName_def
      info_of_def Let_def participant_def newUser_def)

lemma reachable_run0: "reachable run0"
  unfolding run0_def by (rule r_create[OF r_init]) simp

lemma reachable_runA: "reachable runA"
  unfolding runA_def by (rule r_join[OF reachable_run0])

lemma reachable_runAB: "reachable runAB"
  unfolding runAB_def by (rule r_join[OF reachable_runA])

lemma reachable_runB: "reachable runB"
  unfolding runB_def by (rule r_leave[OF reachable_runAB])

lemma reachable_runABC: "reachable runABC"
  unfolding runABC_def runAB2_def by (rule r_join[OF r_create[OF reachable_runAB]]) simp

lemma trackAB_eq:
  "trackAB = \<lparr>connections =
      [(''r1'',
        [(''A'', \<lparr>pe_socketId = ''sock-A'', peers = [], isInitiator = False,
                  mediaState = [(''audio'', True), (''video'', True), (''screen'', False)]\<rparr>),
         (''B'', \<lparr>pe_socketId = ''sock-B'', peers = [], isInitiator = False,
                  mediaState = [(''audio'', True), (''video'', True), (''screen'', False)]\<rparr>)])],
      pendingOffers = []\<rparr>"
  by (simp add: trackAB_def rtc_addUser_def initializeRoom_def WebRTCManager_def Let_def)

lemma trackOfferAB_eq:
  "trackOfferAB = \<lparr>connections =
      [(''r1'',
        [(''A'', \<lparr>pe_socketId = ''sock-A'',
                  peers = [(''B'', \<lparr>connectionId = ''A-B'', peerId = ''B'', status = Connecting,
                                    link_createdAt = 1000\<rparr>)],
                  isInitiator = False,
                  mediaState = [(''audio'', True), (''video'', True), (''screen'', False)]\<rparr>),
         (''B'', \<lparr>pe_socketId = ''sock-B'', peers = [], isInitiator = False,
                  mediaState = [(''audio'', True), (''video'', True), (''screen'', False)]\<rparr>)])],
      pendingOffers =
        [(''A-B'', \<lparr>po_roomId = ''r1'', fromUserId = ''A'', toUserId = ''B'',
                    offer = ''offer-sdp'', timestamp = 1000\<rparr>)]\<rparr>"
  by (simp add: trackOfferAB_def trackAB_eq handleOffer_def createPeerConnection_def
      connId_def Let_def)

lemma trackOfferBA_eq:
  "trackOfferBA = \<lparr>connections =
      [(''r1'',
        [(''A'', \<lparr>pe_socketId = ''sock-A'', peers = [], isInitiator = False,
                  mediaState = [(''audio'', True), (''video'', True), (''screen'', False)]\<rparr>),
         (''B'', \<lparr>pe_socketId = ''sock-B'',
                  peers = [(''A'', \<lparr>connectionId = ''B-A'', peerId = ''A'', status = Connecting,
                                    link_createdAt = 1000\<rparr>)],
                  isInitiator = False,
                  mediaState = [(''audio'', True), (''video'', True), (''screen'', False)]\<rparr>)])],
      pendingOffers =
        [(''B-A'', \<lparr>po_roomId = ''r1'', fromUserId = ''B'', toUserId = ''A'',
                    offer = ''offer-sdp'', timestamp = 1000\<rparr>)]\<rparr>"
  by (simp add: trackOfferBA_def trackAB_eq handleOffer_def createPeerConnection_def
      connId_def Let_def)

lemma trackTwoOffers_pending:
  "pendingOffers trackTwoOffers =
     [(''A-B'', \<lparr>po_roomId = ''r1'', fromUserId = ''A'', toUserId = ''B'',
                 offer = ''offer-sdp'', timestamp = 1000\<rparr>),
      (''B-A'', \<lparr>po_roomId = ''r1'', fromUserId = ''B'', toUserId = ''A'',
                 offer = ''offer-sdp'', timestamp = 21000\<rparr>)]"
  by (simp add: trackTwoOffers_def trackOfferAB_eq handleOffer_def createPeerConnection_def
      connId_def Let_def)

lemma handleAnswer_success_iff:
  "fst (handleAnswer s rid fromId toId ans) \<longleftrightarrow> peerLinkOf s rid fromId toId \<noteq> None"
  by (simp add: handleAnswer_def peerLinkOf_def Let_def split: option.splits)

lemma frac0_eq:
  "frac0 = \<lparr>heap = (\<lambda>_. Room [] None 0)(0 := (Room ''r1'' None 0)\<lparr>maxUsers := Num (5 / 2)\<rparr>),
            nextRef = 1, rooms = [(''r1'', 0)], userRoomMap = []\<rparr>"
  by (simp add: frac0_def createRoom_def capacity2_5_def RoomManager_def Let_def)

lemma fracAB_eq:
  "fracAB = \<lparr>heap = (\<lambda>_. Room [] None 0)
                     (0 := (Room ''r1'' None 0)
                        \<lparr>maxUsers := Num (5 / 2),
                         users := [(''A'', participant ''A'' 1 Host),
                                   (''B'', participant ''B'' 2 Participant)]\<rparr>),
            nextRef = 1, rooms = [(''r1'', 0)],
            userRoomMap = [(''A'', ''r1''), (''B'', ''r1'')]\<rparr>"
  by (simp add: fracAB_def frac0_eq joinRoom_def leaveRoom_def getRoom_def addUser_def
      validatePassword_def Room_def displayName_def info_of_def Let_def participant_def
      newUser_def)

lemma fracABC_eq:
  "fracABC = \<lparr>heap = (\<lambda>_. Room [] None 0)
                     (0 := (Room ''r1'' None 0)
                        \<lparr>maxUsers := Num (5 / 2),
                         users := [(''A'', participant ''A'' 1 Host),
                                   (''B'', participant ''B'' 2 Participant),
                                   (''C'', participant ''C'' 3 Participant)]\<rparr>),
            nextRef = 1, rooms = [(''r1'', 0)],
            userRoomMap = [(''A'', ''r1''), (''B'', ''r1''), (''C'', ''r1'')]\<rparr>"
  by (simp add: fracABC_def fracAB_eq joinRoom_def leaveRoom_def getRoom_def addUser_def
      validatePassword_def Room_def displayName_def info_of_def Let_def participant_def
      newUser_def)

lemma lockedA_eq:
  "lockedA = \<lparr>heap = (\<lambda>_. Room [] None 0)
                      (0 := (Room ''r1'' None 0)
                         \<lparr>maxUsers := Num 1,
                          settings := (settings (Room ''r1'' None 0))
                             \<lparr>requirePassword := True, password := Str ''secret''\<rparr>,
                          users := [(''A'', participant ''A'' 1 Host)]\<rparr>),
             nextRef = 1, rooms = [(''r1'', 0)], userRoomMap = [(''A'', ''r1'')]\<rparr>"
  by (simp add: lockedA_def locked0_def withPassword_def createRoom_def RoomManager_def
      joinRoom_def leaveRoom_def getRoom_def addUser_def validatePassword_def Room_def
      displayName_def info_of_def Let_def participant_def newUser_def)

lemma rtc_reachable_distinct_offers:
  "rtc_reachable s \<Longrightarrow> distinct (map fst (pendingOffers s))"
proof (induction rule: rtc_reachable.induct)
  case t_init
  show ?case by (simp add: WebRTCManager_def)
next
  case (t_add s rid uid sock)
  then show ?case by (simp add: rtc_addUser_def initializeRoom_def Let_def)
next
  case (t_remove s rid uid)
  then show ?case by (simp add: rtc_removeUser_def Let_def split: option.splits)
next
  case (t_offer s rid a b off now)
  then show ?case
    by (auto simp: handleOffer_def createPeerConnection_def Let_def distinct_update
        split: option.splits prod.splits)
next
  case (t_answer s rid a b ans)
  then show ?case by (simp add: handleAnswer_def Let_def split: option.splits)
next
  case (t_media s rid uid mt en)
  then show ?case by (simp add: updateMediaState_def Let_def split: option.splits)
next
  case (t_cleanup s now)
  then show ?case
    by (simp add: cleanupPendingOffers_def fold_delete_filter distinct_map_filter)
qed

lemmas eval_room = joinRoom_def leaveRoom_def getRoom_def addUser_def removeUser_def
  isEmpty_def validatePassword_def Room_def displayName_def info_of_def participant_def
  newUser_def Let_def

lemma getStats_pending: "stats_pendingOffers (getStats s) = length (pendingOffers s)"
proof -
  have "getStats (s\<lparr>pendingOffers := pendingOffers s\<rparr>)
          = (getStats s)\<lparr>stats_pendingOffers := length (pendingOffers s)\<rparr>"
    by (rule getStats_pendingOffers_update)
  then have "getStats s = (getStats s)\<lparr>stats_pendingOffers := length (pendingOffers s)\<rparr>"
    by simp
  then have "stats_pendingOffers (getStats s)
          = stats_pendingOffers ((getStats s)\<lparr>stats_pendingOffers := length (pendingOffers s)\<rparr>)"
    by (rule arg_cong)
  then show ?thesis by simp
qed


section \<open>The claims\<close>

subsection \<open>C1: an offer followed by the answer\<close>

text \<open>
  C1. The claim: after \<open>handleOffer(R, A, B, offer)\<close> has stored the link \<open>A-B\<close> with status
  connecting under \<open>A\<close>, \<open>handleAnswer(R, B, A, answer)\<close> returns success and the link becomes
  connected. The code, run on a room tracking \<open>A\<close> and \<open>B\<close>: the offer returns \<open>A-B\<close> and
  stores the connecting link, but the answer looks for a link in the peers of \<open>B\<close>, finds
  none, returns false and changes nothing, so the link stays connecting.
\<close>

theorem offer_then_answer_stays_connecting:
  "fst (handleOffer trackAB ''r1'' ''A'' ''B'' ''offer-sdp'' 1000) = Some ''A-B''
   \<and> map_option status (peerLinkOf trackOfferAB ''r1'' ''A'' ''B'') = Some Connecting
   \<and> handleAnswer trackOfferAB ''r1'' ''B'' ''A'' ''answer-sdp'' = (False, trackOfferAB)"
  by (simp add: trackAB_eq trackOfferAB_eq handleOffer_def createPeerConnection_def
      connId_def handleAnswer_def peerLinkOf_def Let_def)

subsection \<open>C2: an answer with no offer before it\<close>

text \<open>
  C2. The claim: while no \<open>handleOffer(R, A, B, _)\<close> was ever performed,
  \<open>handleAnswer(R, B, A, answer)\<close> returns false, also when \<open>B\<close> has offered to \<open>A\<close>. The code,
  run on a tracker where only \<open>B\<close> has offered to \<open>A\<close>: \<open>A\<close> holds no link to \<open>B\<close> and no
  offer \<open>A-B\<close> is pending, yet the answer of \<open>B\<close> to \<open>A\<close> returns true and marks the link
  that \<open>B\<close> itself opened as connected.
\<close>

theorem answer_without_offer_succeeds:
  "peerLinkOf trackOfferBA ''r1'' ''A'' ''B'' = None
   \<and> Map_get (pendingOffers trackOfferBA) ''A-B'' = None
   \<and> fst (handleAnswer trackOfferBA ''r1'' ''B'' ''A'' ''answer-sdp'') = True
   \<and> map_option status
        (peerLinkOf (snd (handleAnswer trackOfferBA ''r1'' ''B'' ''A'' ''answer-sdp''))
           ''r1'' ''B'' ''A'') = Some Connected"
  by (simp add: trackOfferBA_eq handleAnswer_def peerLinkOf_def Let_def)

subsection \<open>C3: exactly one host\<close>

text \<open>
  C3. In every reachable state a room that has participants, whether it is in the
  directory or merely was created once, has exactly one entry with the host role.
  \<open>addUser\<close> on an empty room makes the new participant host and the only entry. When
  \<open>removeUser\<close> removes a host and entries remain, the first remaining entry in insertion
  order becomes host and nothing else changes.
\<close>

theorem exactly_one_host:
  assumes "reachable s"
  shows "((getRoom s rid = Some ref \<or> ref < nextRef s) \<and> users (heap s ref) \<noteq> []
            \<longrightarrow> length (hosts (heap s ref)) = 1)
       \<and> (users r = [] \<and> addUser r uid info now = Inr (r', u)
            \<longrightarrow> role u = Host \<and> users r' = [(uid, u)])
       \<and> (Map_get (users q) lid = Some l \<and> role l = Host \<and> Map_delete (users q) lid = (k, v) # rest
            \<longrightarrow> users (fst (removeUser q lid)) = (k, v\<lparr>role := Host\<rparr>) # rest)"
proof -
  from assms have i: "inv s" by (rule reachable_inv)
  have p1: "length (hosts (heap s ref)) = 1"
    if "getRoom s rid = Some ref \<or> ref < nextRef s" "users (heap s ref) \<noteq> []"
  proof -
    from i that(1) have "ref < nextRef s" unfolding inv_def getRoom_def by blast
    with i have "room_ok (heap s ref)" unfolding inv_def by blast
    with that(2) show ?thesis by (simp add: room_ok_def)
  qed
  have p2: "role u = Host \<and> users r' = [(uid, u)]"
    if "users r = []" "addUser r uid info now = Inr (r', u)"
    using addUser_Inr[OF that(2)] that(1) by simp
  have p3: "users (fst (removeUser q lid)) = (k, v\<lparr>role := Host\<rparr>) # rest"
    if "Map_get (users q) lid = Some l" "role l = Host" "Map_delete (users q) lid = (k, v) # rest"
    using that by (simp add: removeUser_def Let_def)
  from p1 p2 p3 show ?thesis by blast
qed

text \<open>
  In the example run: after \<open>A\<close> has left, the room has one host; \<open>A\<close>, first into the empty
  room, was host; removing \<open>A\<close> from the room of \<open>A\<close> and \<open>B\<close> leaves \<open>B\<close> as host.
\<close>

theorem exactly_one_host_witness:
  "length (hosts (heap runB 0)) = 1
   \<and> users (heap runA 0) = [(''A'', participant ''A'' 1 Host)]
   \<and> users (fst (removeUser (heap runAB 0) ''A'')) = [(''B'', participant ''B'' 2 Host)]"
proof -
  have a: "getRoom runB ''r1'' = Some 0 \<and> users (heap runB 0) \<noteq> []"
    by (simp add: runB_eq getRoom_def)
  have b: "users (heap run0 0) = [] \<and>
           addUser (heap run0 0) ''A'' (info_of ''A'') 1 = Inr (heap runA 0, participant ''A'' 1 Host)"
    by (simp add: run0_eq runA_eq eval_room)
  have c: "Map_get (users (heap runAB 0)) ''A'' = Some (participant ''A'' 1 Host)
           \<and> role (participant ''A'' 1 Host) = Host
           \<and> Map_delete (users (heap runAB 0)) ''A'' = (''B'', participant ''B'' 2 Participant) # []"
    by (simp add: runAB_eq participant_def)
  from exactly_one_host[OF reachable_runB, of "''r1''" 0 "heap run0 0" "''A''" "info_of ''A''" 1
      "heap runA 0" "participant ''A'' 1 Host" "heap runAB 0" "''A''" "participant ''A'' 1 Host"
      "''B''" "participant ''B'' 2 Participant" "[]"] a b c
  show ?thesis by (simp add: participant_def)
qed

subsection \<open>C4: a participant is in at most one room\<close>

text \<open>
  C4. In every reachable state, two rooms of the directory that list the same participant
  are the same room. A successful \<open>joinRoom\<close> to another room by a participant of room
  \<open>A\<close> removes the participant from \<open>A\<close> in the leave step, before the participant is
  added; afterwards the participant is not in \<open>A\<close>, is in the joined room, and is indexed
  under it.
\<close>

theorem one_room_per_participant:
  assumes "reachable s"
  shows "(getRoom s rid1 = Some ref1 \<and> Map_has (users (heap s ref1)) uid \<and>
          getRoom s rid2 = Some ref2 \<and> Map_has (users (heap s ref2)) uid
            \<longrightarrow> rid1 = rid2 \<and> ref1 = ref2)
       \<and> (getRoom s ridA = Some refA \<and> Map_has (users (heap s refA)) uid \<and> ridB \<noteq> ridA \<and>
          joinRoom s ridB uid info pw now = (Inr (refB, u), s')
            \<longrightarrow> \<not> Map_has (users (heap (snd (leaveRoom s uid)) refA)) uid
              \<and> \<not> Map_has (users (heap s' refA)) uid
              \<and> getRoom s' ridB = Some refB
              \<and> Map_get (users (heap s' refB)) uid = Some u
              \<and> Map_get (userRoomMap s') uid = Some ridB)"
proof -
  from assms have i: "inv s" by (rule reachable_inv)
  have part1: "rid1 = rid2 \<and> ref1 = ref2"
    if "getRoom s rid1 = Some ref1" "Map_has (users (heap s ref1)) uid"
       "getRoom s rid2 = Some ref2" "Map_has (users (heap s ref2)) uid"
  proof -
    from i that have "Map_get (userRoomMap s) uid = Some rid1" "Map_get (userRoomMap s) uid = Some rid2"
      unfolding inv_def getRoom_def by blast+
    then have "rid1 = rid2" by simp
    with that show ?thesis by simp
  qed
  have part2: "\<not> Map_has (users (heap (snd (leaveRoom s uid)) refA)) uid
              \<and> \<not> Map_has (users (heap s' refA)) uid
              \<and> getRoom s' ridB = Some refB
              \<and> Map_get (users (heap s' refB)) uid = Some u
              \<and> Map_get (userRoomMap s') uid = Some ridB"
    if a: "getRoom s ridA = Some refA" and m: "Map_has (users (heap s refA)) uid"
      and d: "ridB \<noteq> ridA" and j: "joinRoom s ridB uid info pw now = (Inr (refB, u), s')"
  proof (cases rule: joinRoom_cases[of s ridB uid info pw now])
    case (fail0 e)
    with j show ?thesis by simp
  next
    case (fail1 e ref)
    with j show ?thesis by simp
  next
    case (ok ref r' u')
    with j have eq: "ref = refB" "u' = u" and s': "s' = (snd (leaveRoom s uid))
                \<lparr>heap := (heap (snd (leaveRoom s uid)))(refB := r'),
                 userRoomMap := Map_set (userRoomMap (snd (leaveRoom s uid))) uid ridB\<rparr>"
      by auto
    note f = addUser_Inr[OF ok(4)[unfolded eq]]
    from i a m have u: "Map_get (userRoomMap s) uid = Some ridA" and ne: "ridA \<noteq> []"
      and ra: "roomId (heap s refA) = ridA"
      unfolding inv_def getRoom_def by blast+
    from i ok(1) eq have rb: "roomId (heap s refB) = ridB" unfolding inv_def getRoom_def by blast
    from ra rb d have refs: "refB \<noteq> refA" by auto
    note l = leaveRoom_act[OF u ne a]
    have h1: "heap (snd (leaveRoom s uid)) refA = fst (removeUser (heap s refA) uid)"
      by (simp add: l)
    have g1: "\<not> Map_has (users (heap (snd (leaveRoom s uid)) refA)) uid"
      unfolding h1 by (rule removeUser_not_member)
    have g2: "\<not> Map_has (users (heap s' refA)) uid"
      using g1 refs by (simp add: s')
    have "Map_get (rooms (snd (leaveRoom s uid))) ridB = Some refB"
      using ok(1) eq d by (simp add: l getRoom_def delete_conv')
    then have g3: "getRoom s' ridB = Some refB" by (simp add: s' getRoom_def)
    have g4: "Map_get (users (heap s' refB)) uid = Some u"
      using f(2) by (simp add: s' f(1) map_add_Some_iff)
    have g5: "Map_get (userRoomMap s') uid = Some ridB"
      by (simp add: s' update_conv')
    from g1 g2 g3 g4 g5 show ?thesis by simp
  qed
  from part1 part2 show ?thesis by blast
qed

text \<open>
  In the example run \<open>B\<close>, a participant of \<open>r1\<close>, joins \<open>r2\<close>: \<open>B\<close> is gone from \<open>r1\<close>,
  listed in \<open>r2\<close> and indexed under \<open>r2\<close>.
\<close>

theorem one_room_per_participant_witness:
  "Map_get (users (heap runABC 0)) ''B'' = Some (participant ''B'' 2 Participant)
   \<and> Map_get (users (heap (snd (joinRoom runABC ''r2'' ''B'' (info_of ''B'') Undefined 5)) 0)) ''B'' = None
   \<and> Map_get (users (heap (snd (joinRoom runABC ''r2'' ''B'' (info_of ''B'') Undefined 5)) 1)) ''B''
        = Some (participant ''B'' 5 Participant)
   \<and> Map_get (userRoomMap (snd (joinRoom runABC ''r2'' ''B'' (info_of ''B'') Undefined 5))) ''B''
        = Some ''r2''"
proof -
  let ?s' = "snd (joinRoom runABC ''r2'' ''B'' (info_of ''B'') Undefined 5)"
  have a: "getRoom runABC ''r1'' = Some 0 \<and> Map_has (users (heap runABC 0)) ''B''"
    by (simp add: runABC_eq getRoom_def)
  have j: "fst (joinRoom runABC ''r2'' ''B'' (info_of ''B'') Undefined 5)
             = Inr (1, participant ''B'' 5 Participant)"
    by (simp add: runABC_eq eval_room)
  then have j': "joinRoom runABC ''r2'' ''B'' (info_of ''B'') Undefined 5
             = (Inr (1, participant ''B'' 5 Participant), ?s')"
    by (metis prod.collapse)
  have d: "''r2'' \<noteq> ''r1''" by simp
  from one_room_per_participant[OF reachable_runABC, of "''r1''" 0 "''B''" "''r1''" 0
      "''r1''" 0 "''r2''" "info_of ''B''" Undefined 5 1 "participant ''B'' 5 Participant" ?s']
    a j' d
  show ?thesis by (simp add: runABC_eq)
qed

subsection \<open>C5: the capacity\<close>

text \<open>
  C5 as stated fails in three ways. A room created with capacity 2.5 lets \<open>A\<close>, \<open>B\<close> and
  \<open>C\<close> in, since 2 is not \<open>>= 2.5\<close>: three participants, and 2.5 is not \<open>>= 3\<close>. In the full room
  of capacity 2, the join of \<open>A\<close>, who is in it, is not refused: the leave step takes \<open>A\<close>
  out first, and the membership changes. On the full room with a password, a join
  without the password fails with \<open>InvalidPassword\<close>, not \<open>RoomFull\<close>.
\<close>

theorem capacity_exceeded_or_join_not_refused:
  "maxUsers (heap fracAB 0) = Num (5 / 2)
   \<and> fst (joinRoom fracAB ''r1'' ''C'' (info_of ''C'') Undefined 3)
        = Inr (0, participant ''C'' 3 Participant)
   \<and> length (users (heap fracABC 0)) = 3
   \<and> \<not> js_ge (maxUsers (heap fracABC 0)) (Num (of_nat (length (users (heap fracABC 0)))))
   \<and> maxUsers (heap runAB 0) = Num (of_nat (length (users (heap runAB 0))))
   \<and> fst (joinRoom runAB ''r1'' ''A'' (info_of ''A'') Undefined 5)
        = Inr (0, participant ''A'' 5 Participant)
   \<and> users (heap (snd (joinRoom runAB ''r1'' ''A'' (info_of ''A'') Undefined 5)) 0)
        \<noteq> users (heap runAB 0)
   \<and> maxUsers (heap lockedA 0) = Num (of_nat (length (users (heap lockedA 0))))
   \<and> fst (joinRoom lockedA ''r1'' ''B'' (info_of ''B'') Undefined 5) = Inl InvalidPassword"
  by (simp add: fracAB_eq fracABC_eq runAB_eq lockedA_eq eval_room)

text \<open>
  C5, amended. For a room whose capacity is a whole number: after a successful \<open>addUser\<close>,
  and after a successful \<open>joinRoom\<close>, the number of participants is at most the capacity.
  \<open>addUser\<close> on a room whose count equals the capacity fails with \<open>RoomFull\<close> (an error of
  \<open>addUser\<close> writes nothing). In a reachable state, \<open>joinRoom\<close> to such a room of the
  directory, by a participant who is not in it and with a password that passes the
  check, fails with \<open>RoomFull\<close> and leaves the participants of the room as they were.
\<close>

theorem capacity_bound:
  "(maxUsers r = Num (of_int k) \<and> addUser r uid info now = Inr (r', u)
      \<longrightarrow> int (length (users r')) \<le> k \<and> maxUsers r' = Num (of_int k))
   \<and> (maxUsers q = Num (of_nat (length (users q))) \<longrightarrow> addUser q qid qinfo qnow = Inl RoomFull)
   \<and> (maxUsers (heap s ref) = Num (of_int j)
        \<and> joinRoom s rid jid jinfo pw jnow = (Inr (ref, ju), s')
      \<longrightarrow> int (length (users (heap s' ref))) \<le> j \<and> maxUsers (heap s' ref) = Num (of_int j))
   \<and> (reachable t \<and> getRoom t tid = Some tref
        \<and> maxUsers (heap t tref) = Num (of_nat (length (users (heap t tref))))
        \<and> validatePassword (heap t tref) (if tpw = Undefined then Null else tpw)
        \<and> \<not> Map_has (users (heap t tref)) fid
      \<longrightarrow> fst (joinRoom t tid fid finfo tpw fnow) = Inl RoomFull
        \<and> users (heap (snd (joinRoom t tid fid finfo tpw fnow)) tref) = users (heap t tref))"
proof -
  have p1: "int (length (users r')) \<le> k \<and> maxUsers r' = Num (of_int k)"
    if "maxUsers r = Num (of_int k)" "addUser r uid info now = Inr (r', u)"
    for r r' u uid info now k
  proof -
    note f = addUser_Inr[OF that(2)]
    from f(3) that(1) have "\<not> (of_int k \<le> (of_nat (length (users r)) :: rat))" by simp
    then have "(of_int (int (length (users r))) :: rat) < of_int k" by simp
    then have "int (length (users r)) < k" by (simp only: of_int_less_iff)
    with f(1,5) that(1) show ?thesis by simp
  qed
  have p2: "addUser q qid qinfo qnow = Inl RoomFull"
    if "maxUsers q = Num (of_nat (length (users q)))" for q qid qinfo qnow
    using that by (simp add: addUser_def)
  have p3: "int (length (users (heap s' ref))) \<le> j \<and> maxUsers (heap s' ref) = Num (of_int j)"
    if m: "maxUsers (heap s ref) = Num (of_int j)"
      and jn: "joinRoom s rid jid jinfo pw jnow = (Inr (ref, ju), s')"
  proof (cases rule: joinRoom_cases[of s rid jid jinfo pw jnow])
    case (fail0 e)
    with jn show ?thesis by simp
  next
    case (fail1 e ref)
    with jn show ?thesis by simp
  next
    case (ok ref' r' u')
    with jn have eq: "ref' = ref" and h: "heap s' ref = r'" by auto
    from m have "maxUsers (heap (snd (leaveRoom s jid)) ref) = Num (of_int j)"
      by (simp add: leaveRoom_frame)
    from p1[OF this ok(4)[unfolded eq]] h show ?thesis by simp
  qed
  have p4: "fst (joinRoom t tid fid finfo tpw fnow) = Inl RoomFull
        \<and> users (heap (snd (joinRoom t tid fid finfo tpw fnow)) tref) = users (heap t tref)"
    if re: "reachable t" and g: "getRoom t tid = Some tref"
      and full: "maxUsers (heap t tref) = Num (of_nat (length (users (heap t tref))))"
      and pwd: "validatePassword (heap t tref) (if tpw = Undefined then Null else tpw)"
      and nm: "\<not> Map_has (users (heap t tref)) fid"
  proof -
    from re have i: "inv t" by (rule reachable_inv)
    from i g have "tref < nextRef t" unfolding inv_def getRoom_def by blast
    with i have "room_ok (heap t tref)" unfolding inv_def by blast
    then have act: "isActive (heap t tref)" by (simp add: room_ok_def)
    have same: "heap (snd (leaveRoom t fid)) tref = heap t tref"
      using nm by (rule leaveRoom_other_room)
    from full have "addUser (heap t tref) fid finfo fnow = Inl RoomFull" by (rule p2)
    with g act pwd same have "joinRoom t tid fid finfo tpw fnow = (Inl RoomFull, snd (leaveRoom t fid))"
      by (simp add: joinRoom_def Let_def)
    with same show ?thesis by simp
  qed
  from p1 p2 p3 p4 show ?thesis by blast
qed

text \<open>
  The scenario: capacity 2; \<open>A\<close> joins as host, \<open>B\<close> as participant, the count is within
  the capacity; \<open>C\<close> fails with \<open>RoomFull\<close> and the participants are unchanged.
\<close>

theorem capacity_bound_witness:
  "fst (joinRoom run0 ''r1'' ''A'' (info_of ''A'') Undefined 1) = Inr (0, participant ''A'' 1 Host)
   \<and> fst (joinRoom runA ''r1'' ''B'' (info_of ''B'') Undefined 2)
        = Inr (0, participant ''B'' 2 Participant)
   \<and> maxUsers (heap runAB 0) = Num 2
   \<and> int (length (users (heap runAB 0))) \<le> 2
   \<and> addUser (heap runAB 0) ''C'' (info_of ''C'') 3 = Inl RoomFull
   \<and> fst (joinRoom runAB ''r1'' ''C'' (info_of ''C'') Undefined 3) = Inl RoomFull
   \<and> users (heap (snd (joinRoom runAB ''r1'' ''C'' (info_of ''C'') Undefined 3)) 0)
        = users (heap runAB 0)"
proof -
  have jA: "fst (joinRoom run0 ''r1'' ''A'' (info_of ''A'') Undefined 1)
              = Inr (0, participant ''A'' 1 Host)"
    by (simp add: run0_eq eval_room)
  have jB: "fst (joinRoom runA ''r1'' ''B'' (info_of ''B'') Undefined 2)
              = Inr (0, participant ''B'' 2 Participant)"
    by (simp add: runA_eq eval_room)
  then have jB': "joinRoom runA ''r1'' ''B'' (info_of ''B'') Undefined 2
              = (Inr (0, participant ''B'' 2 Participant), runAB)"
    unfolding runAB_def by (metis prod.collapse)
  have add: "maxUsers (heap runA 0) = Num (of_int 2) \<and>
             addUser (heap runA 0) ''B'' (info_of ''B'') 2
               = Inr (heap runAB 0, participant ''B'' 2 Participant)"
    by (simp add: runA_eq runAB_eq eval_room)
  have full: "getRoom runAB ''r1'' = Some 0
        \<and> maxUsers (heap runAB 0) = Num (of_nat (length (users (heap runAB 0))))
        \<and> validatePassword (heap runAB 0) (if Undefined = Undefined then Null else Undefined)
        \<and> \<not> Map_has (users (heap runAB 0)) ''C''"
    by (simp add: runAB_eq getRoom_def validatePassword_def Room_def)
  have cap: "maxUsers (heap runAB 0) = Num 2" by (simp add: runAB_eq)
  from capacity_bound[where r = "heap runA 0" and k = 2 and uid = "''B''"
      and info = "info_of ''B''"
      and now = 2 and r' = "heap runAB 0" and u = "participant ''B'' 2 Participant"
      and q = "heap runAB 0" and qid = "''C''" and qinfo = "info_of ''C''" and qnow = 3
      and s = runA and rid = "''r1''" and jid = "''B''" and jinfo = "info_of ''B''"
      and pw = Undefined and jnow = 2 and ref = 0 and ju = "participant ''B'' 2 Participant"
      and s' = runAB and j = 2
      and t = runAB and tid = "''r1''" and tref = 0 and tpw = Undefined and fid = "''C''"
      and finfo = "info_of ''C''" and fnow = 3]
    jA jB jB' add full cap reachable_runAB
  show ?thesis by simp
qed

subsection \<open>C6: the capacity of a new room\<close>




subsection \<open>C7: the last participant leaves\<close>

text \<open>
  C7. In every reachable state, when the only participant of a room of the directory
  leaves through \<open>leaveRoom\<close>, the room is deleted in that call: \<open>getRoom\<close> on the state
  \<open>leaveRoom\<close> returns is absent. The call returns the room and the participant.
\<close>

theorem leaveRoom_last_deletes_room:
  assumes "reachable s" and "getRoom s rid = Some ref"
    and "map fst (users (heap s ref)) = [uid]"
  shows "getRoom (snd (leaveRoom s uid)) rid = None
       \<and> fst (leaveRoom s uid) = Some (ref, Map_get (users (heap s ref)) uid)"
proof -
  from assms(1) have i: "inv s" by (rule reachable_inv)
  have m: "Map_has (users (heap s ref)) uid" unfolding member_keys using assms(3) by simp
  with i assms(2) have u: "Map_get (userRoomMap s) uid = Some rid" and ne: "rid \<noteq> []"
    unfolding inv_def getRoom_def by blast+
  have "map fst (users (fst (removeUser (heap s ref) uid))) = []"
    by (simp add: removeUser_keys assms(3))
  then have e: "isEmpty (fst (removeUser (heap s ref) uid))" by (simp add: isEmpty_def)
  have "rooms (snd (leaveRoom s uid)) = Map_delete (rooms s) rid"
    by (simp add: leaveRoom_act[OF u ne assms(2)] e)
  then have "getRoom (snd (leaveRoom s uid)) rid = None"
    by (simp add: getRoom_def delete_conv')
  moreover have "fst (leaveRoom s uid) = Some (ref, Map_get (users (heap s ref)) uid)"
    using u ne assms(2) m
    by (auto simp: leaveRoom_def Let_def case_prod_unfold removeUser_def split: option.splits)
  ultimately show ?thesis by simp
qed

text \<open>
  In the example run \<open>A\<close> is alone in \<open>r1\<close>; after \<open>A\<close> leaves, \<open>r1\<close> is absent.
\<close>

theorem leaveRoom_last_deletes_room_witness:
  "map fst (users (heap runA 0)) = [''A'']
   \<and> getRoom runA ''r1'' = Some 0
   \<and> getRoom (snd (leaveRoom runA ''A'')) ''r1'' = None
   \<and> fst (leaveRoom runA ''A'') = Some (0, Some (participant ''A'' 1 Host))"
proof -
  have a: "getRoom runA ''r1'' = Some 0" "map fst (users (heap runA 0)) = [''A'']"
    by (simp_all add: runA_eq getRoom_def)
  from leaveRoom_last_deletes_room[OF reachable_runA a] a
  show ?thesis by (simp add: runA_eq)
qed

subsection \<open>C8: the sweep of expired offers\<close>

text \<open>
  C8. On a pending-offer map (its keys distinct, as in any \<open>Map\<close>), one run of
  \<open>cleanupPendingOffers\<close> at time \<open>now\<close> keeps exactly the offers whose age
  \<open>now - timestamp\<close> does not exceed 30000, in their order, and returns the number of the
  others; \<open>connections\<close> is unchanged; \<open>getStats\<close> afterwards differs from before only in
  \<open>pendingOffers\<close>, which counts the offers kept.
\<close>

theorem cleanupPendingOffers_sweep:
  assumes "distinct (map fst (pendingOffers s))"
  shows "pendingOffers (snd (cleanupPendingOffers s now))
           = filter (\<lambda>(cid, od). \<not> (now - timestamp od > 30000)) (pendingOffers s)
       \<and> fst (cleanupPendingOffers s now)
           = length (filter (\<lambda>(cid, od). now - timestamp od > 30000) (pendingOffers s))
       \<and> connections (snd (cleanupPendingOffers s now)) = connections s
       \<and> getStats (snd (cleanupPendingOffers s now))
           = (getStats s)\<lparr>stats_pendingOffers :=
                length (filter (\<lambda>(cid, od). \<not> (now - timestamp od > 30000)) (pendingOffers s))\<rparr>"
proof -
  have p: "pendingOffers (snd (cleanupPendingOffers s now))
           = filter (\<lambda>(cid, od). \<not> (now - timestamp od > 30000)) (pendingOffers s)"
    using delete_keys_of_filter[OF assms, of "\<lambda>(cid, od). expired now od"]
    by (simp add: cleanupPendingOffers_def expired_def case_prod_unfold)
  have s': "snd (cleanupPendingOffers s now)
      = s\<lparr>pendingOffers := pendingOffers (snd (cleanupPendingOffers s now))\<rparr>"
    by (simp add: cleanupPendingOffers_def)
  have g: "getStats (snd (cleanupPendingOffers s now))
           = (getStats s)\<lparr>stats_pendingOffers := length (pendingOffers (snd (cleanupPendingOffers s now)))\<rparr>"
    by (subst s') (rule getStats_pendingOffers_update)
  have n: "fst (cleanupPendingOffers s now)
           = length (filter (\<lambda>(cid, od). now - timestamp od > 30000) (pendingOffers s))"
    by (simp add: cleanupPendingOffers_def expired_def case_prod_unfold)
  have c: "connections (snd (cleanupPendingOffers s now)) = connections s"
    by (simp add: cleanupPendingOffers_def)
  show ?thesis
    using p g n c by simp
qed

text \<open>
  Two offers staged at 1000 and 21000, swept at 40000: the first is removed, the second
  is kept and counted, the connections are as before.
\<close>

theorem cleanupPendingOffers_sweep_witness:
  "map fst (pendingOffers trackTwoOffers) = [''A-B'', ''B-A'']
   \<and> map fst (pendingOffers (snd (cleanupPendingOffers trackTwoOffers 40000))) = [''B-A'']
   \<and> fst (cleanupPendingOffers trackTwoOffers 40000) = 1
   \<and> stats_pendingOffers (getStats trackTwoOffers) = 2
   \<and> stats_pendingOffers (getStats (snd (cleanupPendingOffers trackTwoOffers 40000))) = 1
   \<and> connections (snd (cleanupPendingOffers trackTwoOffers 40000)) = connections trackTwoOffers"
proof -
  have d: "distinct (map fst (pendingOffers trackTwoOffers))"
    by (simp add: trackTwoOffers_pending)
  have g: "stats_pendingOffers (getStats trackTwoOffers) = 2"
    by (simp add: getStats_pending trackTwoOffers_pending)
  from cleanupPendingOffers_sweep[OF d, of 40000] g
  show ?thesis by (simp add: trackTwoOffers_pending)
qed

subsection \<open>C9: a join that fails after leaving\<close>

text \<open>
  C9. In every reachable state, when a participant of room \<open>A\<close> calls \<open>joinRoom\<close> for
  another room and the call fails with \<open>RoomFull\<close> or \<open>DuplicateParticipant\<close>, the state
  returned is the one after the leave step: the participant is no longer in \<open>A\<close>, has no
  entry in \<open>userRoomMap\<close>, and no room of the directory lists it.
\<close>

theorem joinRoom_failure_leaves_previous_room:
  assumes "reachable s" and "getRoom s ridA = Some refA"
    and "Map_has (users (heap s refA)) uid" and "ridB \<noteq> ridA"
    and "joinRoom s ridB uid info pw now = (Inl e, s')"
    and "e = RoomFull \<or> e = DuplicateParticipant"
  shows "s' = snd (leaveRoom s uid)
       \<and> \<not> Map_has (users (heap s' refA)) uid
       \<and> Map_get (userRoomMap s') uid = None
       \<and> (\<forall>rid ref. getRoom s' rid = Some ref \<longrightarrow> \<not> Map_has (users (heap s' ref)) uid)"
proof (cases rule: joinRoom_cases[of s ridB uid info pw now])
  case (fail0 e')
  with assms(5,6) show ?thesis by auto
next
  case (ok ref r' u)
  with assms(5) show ?thesis by simp
next
  case (fail1 e' ref)
  with assms(5) have s': "s' = snd (leaveRoom s uid)" by simp
  from assms(1) have i: "inv s" by (rule reachable_inv)
  from i assms(2,3) have u: "Map_get (userRoomMap s) uid = Some ridA" and ne: "ridA \<noteq> []"
    unfolding inv_def getRoom_def by blast+
  note l = leaveRoom_act[OF u ne assms(2)]
  have g1: "\<not> Map_has (users (heap s' refA)) uid"
    using removeUser_not_member[of "heap s refA" uid] by (simp add: s' l)
  have g2: "Map_get (userRoomMap s') uid = None"
    by (simp add: s' l delete_conv')
  have g3: "\<not> Map_has (users (heap s' ref)) uid" if "getRoom s' rid = Some ref" for rid ref
    using leaveRoom_gone[OF i, of uid rid ref] that by (simp add: s' getRoom_def)
  from s' g1 g2 g3 show ?thesis by blast
qed

text \<open>
  In the example run \<open>C\<close>, alone in \<open>r2\<close>, tries to join the full \<open>r1\<close>: \<open>RoomFull\<close>, and
  \<open>C\<close> is in no room and has no index entry.
\<close>

theorem joinRoom_failure_leaves_previous_room_witness:
  "Map_get (userRoomMap runABC) ''C'' = Some ''r2''
   \<and> fst (joinRoom runABC ''r1'' ''C'' (info_of ''C'') Undefined 5) = Inl RoomFull
   \<and> Map_get (users (heap (snd (joinRoom runABC ''r1'' ''C'' (info_of ''C'') Undefined 5)) 1)) ''C''
        = None
   \<and> Map_get (userRoomMap (snd (joinRoom runABC ''r1'' ''C'' (info_of ''C'') Undefined 5))) ''C''
        = None"
proof -
  let ?s' = "snd (joinRoom runABC ''r1'' ''C'' (info_of ''C'') Undefined 5)"
  have a: "getRoom runABC ''r2'' = Some 1" "Map_has (users (heap runABC 1)) ''C''" "''r1'' \<noteq> ''r2''"
    by (simp_all add: runABC_eq getRoom_def)
  have j: "fst (joinRoom runABC ''r1'' ''C'' (info_of ''C'') Undefined 5) = Inl RoomFull"
    by (simp add: runABC_eq eval_room)
  then have j': "joinRoom runABC ''r1'' ''C'' (info_of ''C'') Undefined 5 = (Inl RoomFull, ?s')"
    by (metis prod.collapse)
  have e: "RoomFull = RoomFull \<or> RoomFull = DuplicateParticipant" by simp
  have m: "Map_get (userRoomMap runABC) ''C'' = Some ''r2''"
    by (simp add: runABC_eq)
  have "Map_get (users (heap ?s' 1)) ''C'' = None \<and> Map_get (userRoomMap ?s') ''C'' = None"
    using joinRoom_failure_leaves_previous_room[OF reachable_runABC a j' e] by blast
  with j m show ?thesis by simp
qed

subsection \<open>C10: the sole participant joins its room again\<close>

text \<open>
  C10 as stated fails: in a room with a password, the sole participant joining again
  without the password gets \<open>InvalidPassword\<close>; nothing is left and the room stays in the
  directory.
\<close>

theorem rejoin_without_password_refused:
  "getRoom lockedA ''r1'' = Some 0
   \<and> map fst (users (heap lockedA 0)) = [''A'']
   \<and> joinRoom lockedA ''r1'' ''A'' (info_of ''A'') Undefined 5 = (Inl InvalidPassword, lockedA)
   \<and> getRoom (snd (joinRoom lockedA ''r1'' ''A'' (info_of ''A'') Undefined 5)) ''r1'' = Some 0"
  by (simp add: lockedA_eq eval_room)

text \<open>
  C10, amended. In every reachable state, when the only participant of a room of the
  directory calls \<open>joinRoom\<close> for that room with a password that passes the check, the
  call returns the room and a fresh host record; in the state returned the room is absent
  from the directory, \<open>userRoomMap\<close> maps the participant to the room's identifier, and the
  room object lists just the new record.
\<close>

theorem rejoin_sole_participant_orphans_room:
  assumes "reachable s" and "getRoom s rid = Some ref"
    and "map fst (users (heap s ref)) = [uid]"
    and "validatePassword (heap s ref) (if pw = Undefined then Null else pw)"
  shows "fst (joinRoom s rid uid info pw now) =
           Inr (ref, newUser uid info now Host)
       \<and> getRoom (snd (joinRoom s rid uid info pw now)) rid = None
       \<and> Map_get (userRoomMap (snd (joinRoom s rid uid info pw now))) uid = Some rid
       \<and> users (heap (snd (joinRoom s rid uid info pw now)) ref) =
           [(uid, newUser uid info now Host)]"
proof -
  let ?u = "newUser uid info now Host"
  let ?s1 = "snd (leaveRoom s uid)"
  from assms(1) have i: "inv s" by (rule reachable_inv)
  have m: "Map_has (users (heap s ref)) uid" unfolding member_keys using assms(3) by simp
  from assms(3) have nonempty: "users (heap s ref) \<noteq> []" by auto
  from i assms(2) m have u: "Map_get (userRoomMap s) uid = Some rid" and ne: "rid \<noteq> []"
    and lt: "ref < nextRef s"
    unfolding inv_def getRoom_def by blast+
  from i lt have ok: "room_ok (heap s ref)" unfolding inv_def by blast
  with nonempty have act: "isActive (heap s ref)"
    and cap1: "\<not> js_ge (Num 0) (maxUsers (heap s ref))"
    by (simp_all add: room_ok_def)
  note l = leaveRoom_act[OF u ne assms(2)]
  have k: "map fst (users (fst (removeUser (heap s ref) uid))) = []"
    by (simp add: removeUser_keys assms(3))
  then have e: "isEmpty (fst (removeUser (heap s ref) uid))" 
    and us: "users (fst (removeUser (heap s ref) uid)) = []" by (simp_all add: isEmpty_def)
  have h1: "heap ?s1 ref = fst (removeUser (heap s ref) uid)" by (simp add: l)
  have r1: "rooms ?s1 = Map_delete (rooms s) rid" by (simp add: l e)
  have u1: "userRoomMap ?s1 = Map_delete (userRoomMap s) uid" by (simp add: l)
  have add: "addUser (heap ?s1 ref) uid info now = Inr ((heap ?s1 ref)\<lparr>users := [(uid, ?u)]\<rparr>, ?u)"
    using cap1 by (simp add: addUser_def h1 us removeUser_fields Let_def)
  have j: "joinRoom s rid uid info pw now =
      (Inr (ref, ?u), ?s1\<lparr>heap := (heap ?s1)(ref := (heap ?s1 ref)\<lparr>users := [(uid, ?u)]\<rparr>),
                         userRoomMap := Map_set (userRoomMap ?s1) uid rid\<rparr>)"
    using assms(2,4) act add by (simp add: joinRoom_def Let_def)
  show ?thesis
    unfolding j by (simp add: getRoom_def r1 delete_conv' update_conv')
qed

text \<open>
  In the example run \<open>A\<close>, alone in \<open>r1\<close>, joins \<open>r1\<close> again: success, \<open>r1\<close> is absent,
  the index still maps \<open>A\<close> to \<open>r1\<close>.
\<close>

theorem rejoin_sole_participant_orphans_room_witness:
  "fst (joinRoom runA ''r1'' ''A'' (info_of ''A'') Undefined 5) = Inr (0, participant ''A'' 5 Host)
   \<and> getRoom (snd (joinRoom runA ''r1'' ''A'' (info_of ''A'') Undefined 5)) ''r1'' = None
   \<and> Map_get (userRoomMap (snd (joinRoom runA ''r1'' ''A'' (info_of ''A'') Undefined 5))) ''A''
        = Some ''r1''"
proof -
  have a: "getRoom runA ''r1'' = Some 0" "map fst (users (heap runA 0)) = [''A'']"
    "validatePassword (heap runA 0) (if Undefined = Undefined then Null else Undefined)"
    by (simp_all add: runA_eq getRoom_def validatePassword_def Room_def)
  from rejoin_sole_participant_orphans_room[OF reachable_runA a, of "info_of ''A''" 5]
  show ?thesis by (simp add: participant_def newUser_def displayName_def info_of_def)
qed

end
